theory Spec2Isabelle
  imports Main "HOL-Library.AList" "HOL-Library.Char_ord" "HOL-Library.List_Lexorder"
    "HOL-Library.Sublist"
begin


section \<open>Logger documentation validator (Tools/autotest/logger_metadata/validate.py)\<close>

text \<open>
  The development embeds the cross-reference part of \<^verbatim>\<open>validate_logger_documentation\<close>
  (lines 427-486) and the extraction function \<^verbatim>\<open>all_log_format_ids\<close> (lines 73-311).
  Python dictionaries are association lists read with \<^const>\<open>map_of\<close>; Python sets of names
  are duplicate-free lists; every \<^verbatim>\<open>print\<close> is a value of a datatype of report lines;
  \<^verbatim>\<open>return False\<close> in the middle of a loop is the left injection of a sum.
\<close>

subsection \<open>Data model\<close>

text \<open>
  A code-side record, the dictionary stored under \<^verbatim>\<open>ids[name]\<close>. Struct-table records
  carry all five keys (lines 232-238), call-site records only name and labels (lines 303-306).
\<close>

record message_record =
  m_name :: string
  m_format :: "string option"
  m_labels :: string
  m_units :: "string option"
  m_multipliers :: "string option"

type_synonym code_ids = "(string \<times> message_record) list"

text \<open>The documentation side: \<^verbatim>\<open>docco_ids[name]["labels"]\<close> is a list of field names.\<close>

type_synonym docco_ids = "(string \<times> string list) list"

text \<open>
  One constructor for each \<^verbatim>\<open>print\<close> of lines 442-485, with the interpolated values:
  \<^item> \<open>ErrDuplicateLabel name label\<close>: \<^verbatim>\<open>ERROR: {name}.{label} is duplicate label\<close> (line 442);
  \<^item> \<open>WarnNotDocumented name label docs\<close> and \<open>ErrNotDocumented name label docs\<close>:
    \<^verbatim>\<open>{name}.{label} not in documented fields (have (...))\<close> behind \<^verbatim>\<open>WARNING:\<close> (line 449) or
    \<^verbatim>\<open>ERROR:\<close> (line 452), \<open>docs\<close> being the documented labels that are joined by commas;
  \<^item> \<open>ErrUndocumentedFound\<close>: \<^verbatim>\<open>ERROR: Undocumented messages found:\<close> (line 456);
  \<^item> \<open>ErrOverdocumentedFound\<close>: \<^verbatim>\<open>ERROR: Messages documented when they shouldn't be:\<close>
    (line 462);
  \<^item> \<open>Item name\<close>: one line \<^verbatim>\<open>  - {name}\<close> of either list (lines 458, 464);
  \<^item> \<open>ErrFieldNotInCode name label\<close>: \<^verbatim>\<open>ERROR: Documented field {name}.{label} not found in code\<close>
    (line 478);
  \<^item> \<open>ErrMissingInCode missing\<close>: \<^verbatim>\<open>ERROR: Documented messages not in code: {missing}\<close>
    (line 482);
  \<^item> \<open>Success\<close>: the success line (line 485).
\<close>

datatype report =
    ErrDuplicateLabel string string
  | WarnNotDocumented string string "string list"
  | ErrNotDocumented string string "string list"
  | ErrUndocumentedFound
  | ErrOverdocumentedFound
  | Item string
  | ErrFieldNotInCode string string
  | ErrMissingInCode "string list"
  | Success

record vstate =
  undocumented :: "string list"
  overdocumented :: "string list"
  out :: "report list"

subsection \<open>Python helpers\<close>

text \<open>\<^verbatim>\<open>s.split(d)\<close> for a one-character separator: never empty, \<^verbatim>\<open>"".split(",") == [""]\<close>.\<close>

fun split_on :: "char \<Rightarrow> string \<Rightarrow> string list" where
  "split_on d [] = [[]]"
| "split_on d (c # cs) =
     (if c = d then [] # split_on d cs
      else (let r = split_on d cs in (c # hd r) # tl r))"

text \<open>
  \<^verbatim>\<open>for k in sorted(d.keys()): ... d[k] ...\<close>: every key once, in increasing order, with the
  value stored under it.
\<close>

definition sorted_items :: "(string \<times> 'v) list \<Rightarrow> (string \<times> 'v) list" where
  "sorted_items d = sort_key fst (AList.clearjunk d)"

subsection \<open>Whitelist (lines 314-350)\<close>

text \<open>
  \<^verbatim>\<open>vinfo_key\<close> is the last component of the vehicle's code directory: the directory of
  \<^verbatim>\<open>vehicle_map\<close> (lines 54-62) for the six vehicles, and the name itself for any other name
  without a path separator.
\<close>

definition vehicle_dirname :: "string \<Rightarrow> string" where
  "vehicle_dirname vehicle =
     (if vehicle = ''Copter'' then ''ArduCopter''
      else if vehicle = ''Plane'' then ''ArduPlane''
      else if vehicle = ''Rover'' then ''Rover''
      else if vehicle = ''Sub'' then ''ArduSub''
      else if vehicle = ''Tracker'' then ''AntennaTracker''
      else if vehicle = ''Blimp'' then ''Blimp''
      else vehicle)"

definition get_whitelist :: "string \<Rightarrow> string set" where
  "get_whitelist vehicle =
     (let vinfo_key = vehicle_dirname vehicle in
        (if vinfo_key \<noteq> ''ArduPlane'' \<and> vinfo_key \<noteq> ''ArduCopter'' \<and> vinfo_key \<noteq> ''Helicopter''
         then {''ATUN''} else {})
      \<union> (if vinfo_key \<noteq> ''ArduPlane''
         then {''TECS'', ''TEC2'', ''TEC3'', ''TEC4'', ''SOAR'', ''SORC'', ''QBRK'', ''FWDT'', ''VAR''}
         else {})
      \<union> (if vinfo_key \<noteq> ''ArduCopter'' \<and> vinfo_key \<noteq> ''Helicopter''
         then {''ARHS'', ''AROT'', ''ARSC'', ''ATDH'', ''ATNH'', ''ATSH'', ''GMB1'', ''GMB2'', ''SURF''}
         else {}))"

subsection \<open>Cross-reference validator (lines 427-486)\<close>

text \<open>
  The inner loop of lines 439-453 over the labels of one code record. \<open>seen\<close> is
  \<^verbatim>\<open>seen_labels\<close>. \<open>Inl log\<close> is \<^verbatim>\<open>return False\<close> with everything printed so far.
\<close>

fun check_labels ::
  "string set \<Rightarrow> string \<Rightarrow> string list \<Rightarrow> string list \<Rightarrow> string list \<Rightarrow> vstate
    \<Rightarrow> report list + vstate" where
  "check_labels wl nm docs seen [] st = Inr st"
| "check_labels wl nm docs seen (label # ls) st =
     (if label \<in> set seen then Inl (out st @ [ErrDuplicateLabel nm label])
      else if label \<notin> set docs then
        (if nm \<in> wl then
           check_labels wl nm docs (label # seen) ls
             (st\<lparr>out := out st @ [WarnNotDocumented nm label docs],
                 overdocumented := removeAll nm (overdocumented st)\<rparr>)
         else Inl (out st @ [ErrNotDocumented nm label docs]))
      else check_labels wl nm docs (label # seen) ls st)"

text \<open>The loop of lines 430-453 over the code-side names in sorted order.\<close>

fun check_code_names ::
  "string set \<Rightarrow> docco_ids \<Rightarrow> (string \<times> message_record) list \<Rightarrow> vstate
    \<Rightarrow> report list + vstate" where
  "check_code_names wl docco [] st = Inr st"
| "check_code_names wl docco ((nm, r) # rest) st =
     (case map_of docco nm of
        None \<Rightarrow>
          check_code_names wl docco rest
            (if nm \<notin> wl then st\<lparr>undocumented := List.insert nm (undocumented st)\<rparr> else st)
      | Some docs \<Rightarrow>
          (case check_labels wl nm docs [] (split_on CHR '','' (m_labels r))
                  (if nm \<in> wl then st\<lparr>overdocumented := List.insert nm (overdocumented st)\<rparr>
                   else st) of
             Inl log \<Rightarrow> Inl log
           | Inr st' \<Rightarrow> check_code_names wl docco rest st'))"

text \<open>Lines 476-479: every documented label must be one of the code labels.\<close>

fun check_doc_labels :: "string \<Rightarrow> string list \<Rightarrow> string list \<Rightarrow> report option" where
  "check_doc_labels nm code_labels [] = None"
| "check_doc_labels nm code_labels (label # ls) =
     (if label \<notin> set code_labels then Some (ErrFieldNotInCode nm label)
      else check_doc_labels nm code_labels ls)"

text \<open>The loop of lines 467-479 over the documented names in sorted order.\<close>

fun check_doc_names ::
  "string set \<Rightarrow> code_ids \<Rightarrow> (string \<times> string list) list \<Rightarrow> string list \<times> report list
    \<Rightarrow> report list + string list \<times> report list" where
  "check_doc_names wl code [] acc = Inr acc"
| "check_doc_names wl code ((nm, docs) # rest) (missing, log) =
     (case map_of code nm of
        None \<Rightarrow>
          (if nm \<notin> wl then check_doc_names wl code rest (missing @ [nm], log)
           else check_doc_names wl code rest (missing, log))
      | Some r \<Rightarrow>
          (case check_doc_labels nm (split_on CHR '','' (m_labels r)) docs of
             Some e \<Rightarrow> Inl (log @ [e])
           | None \<Rightarrow> check_doc_names wl code rest (missing, log)))"

text \<open>
  Lines 427-486 of \<^verbatim>\<open>validate_logger_documentation\<close>, from the whitelist, the documentation
  records and the code records: the returned verdict and the lines printed.
\<close>

definition cross_reference :: "string set \<Rightarrow> docco_ids \<Rightarrow> code_ids \<Rightarrow> bool \<times> report list" where
  "cross_reference wl docco code =
     (case check_code_names wl docco (sorted_items code)
             \<lparr>undocumented = [], overdocumented = [], out = []\<rparr> of
        Inl log \<Rightarrow> (False, log)
      | Inr st \<Rightarrow>
          if undocumented st \<noteq> [] then
            (False, out st @ ErrUndocumentedFound # map Item (sort (undocumented st)))
          else if overdocumented st \<noteq> [] then
            (False, out st @ ErrOverdocumentedFound # map Item (sort (overdocumented st)))
          else
            (case check_doc_names wl code (sorted_items docco) ([], out st) of
               Inl log \<Rightarrow> (False, log)
             | Inr (missing, log) \<Rightarrow>
                 if missing \<noteq> [] then (False, log @ [ErrMissingInCode missing])
                 else (True, log @ [Success])))"

section \<open>The part of Python's \<^verbatim>\<open>re\<close> and \<^verbatim>\<open>str\<close> that the extractor uses\<close>

text \<open>
  A character is a code point below 256. \<^verbatim>\<open>\s\<close> and \<^verbatim>\<open>str.isspace\<close> hold for the code points
  9-13, 28-32, 133 and 160; \<^verbatim>\<open>\w\<close> holds for the ASCII letters, digits and underscore and for
  the alphanumeric code points of Latin-1; \<^verbatim>\<open>.\<close> is every character but the line feed.
\<close>

definition is_space :: "char \<Rightarrow> bool" where
  "is_space c = (let n = (of_char c :: nat) in (9 \<le> n \<and> n \<le> 13) \<or> (28 \<le> n \<and> n \<le> 32) \<or> n = 133 \<or> n = 160)"

definition is_word :: "char \<Rightarrow> bool" where
  "is_word c =
     (let n = (of_char c :: nat) in
        (48 \<le> n \<and> n \<le> 57) \<or> (65 \<le> n \<and> n \<le> 90) \<or> n = 95 \<or> (97 \<le> n \<and> n \<le> 122) \<or>
        n = 170 \<or> n = 178 \<or> n = 179 \<or> n = 181 \<or> n = 185 \<or> n = 186 \<or> (188 \<le> n \<and> n \<le> 190) \<or>
        (192 \<le> n \<and> n \<le> 214) \<or> (216 \<le> n \<and> n \<le> 246) \<or> 248 \<le> n)"

text \<open>
  Character sets: \<^verbatim>\<open>.\<close>, \<^verbatim>\<open>\s\<close>, \<^verbatim>\<open>\w\<close>, one character, a negated one-character class such as
  \<^verbatim>\<open>[^)]\<close>, and the union of two sets, as in \<^verbatim>\<open>[\w,]\<close>.
\<close>

datatype cset = Dot | Space | Word | Lit char | NotLit char | Union cset cset

fun cmem :: "cset \<Rightarrow> char \<Rightarrow> bool" where
  "cmem Dot c = (c \<noteq> CHR 0x0A)"
| "cmem Space c = is_space c"
| "cmem Word c = is_word c"
| "cmem (Lit d) c = (c = d)"
| "cmem (NotLit d) c = (c \<noteq> d)"
| "cmem (Union a b) c = (cmem a c \<or> cmem b c)"

text \<open>
  Patterns. Every starred or plussed item of the source's patterns is a character set.
  \<open>Group n\<close> is the capturing group number \<open>n\<close>; \<open>Eol\<close> is \<^verbatim>\<open>$\<close>, which holds at the end of
  the string and before a line feed that ends it.
\<close>

datatype regex =
    Sym cset
  | Str string
  | Seq regex regex
  | Alt regex regex
  | Opt regex
  | Star cset
  | Plus cset
  | Group nat regex
  | Eol

text \<open>
  The ways a greedy \<^verbatim>\<open>x*\<close> can match at the head of a string, as the rests of the string,
  the longest match first: the order in which the backtracking matcher tries them.
\<close>

fun star_cs :: "cset \<Rightarrow> string \<Rightarrow> string list" where
  "star_cs cs [] = [[]]"
| "star_cs cs (x # xs) = (if cmem cs x then star_cs cs xs else []) @ [x # xs]"

type_synonym captures = "(nat \<times> string) list"

text \<open>
  All matches of a pattern at the head of a string, in the matcher's order of preference:
  each is the rest of the string with the groups captured on the way.
\<close>

fun mt :: "regex \<Rightarrow> string \<times> captures \<Rightarrow> (string \<times> captures) list" where
  "mt (Sym cs) (s, c) = (case s of [] \<Rightarrow> [] | x # xs \<Rightarrow> if cmem cs x then [(xs, c)] else [])"
| "mt (Str w) (s, c) = (if prefix w s then [(drop (length w) s, c)] else [])"
| "mt (Seq a b) st = concat (map (mt b) (mt a st))"
| "mt (Alt a b) st = mt a st @ mt b st"
| "mt (Opt a) st = mt a st @ [st]"
| "mt (Star cs) (s, c) = map (\<lambda>s'. (s', c)) (star_cs cs s)"
| "mt (Plus cs) (s, c) =
     (case s of [] \<Rightarrow> []
      | x # xs \<Rightarrow> if cmem cs x then map (\<lambda>s'. (s', c)) (star_cs cs xs) else [])"
| "mt (Group n a) (s, c) =
     map (\<lambda>(s', c'). (s', (n, take (length s - length s') s) # c')) (mt a (s, c))"
| "mt Eol (s, c) = (if s = [] \<or> s = [CHR 0x0A] then [(s, c)] else [])"

definition seqs :: "regex list \<Rightarrow> regex" where
  "seqs rs = foldr Seq rs (Str [])"

text \<open>\<^verbatim>\<open>re.match(r, s)\<close>: the first match at the start of \<open>s\<close>, as its captured groups.\<close>

definition re_match :: "regex \<Rightarrow> string \<Rightarrow> captures option" where
  "re_match r s = (case mt r (s, []) of [] \<Rightarrow> None | (s', c) # _ \<Rightarrow> Some c)"

text \<open>\<^verbatim>\<open>m.group(n)\<close> for a group that took part in the match.\<close>

definition group :: "captures \<Rightarrow> nat \<Rightarrow> string" where
  "group c n = (case map_of c n of Some g \<Rightarrow> g | None \<Rightarrow> [])"

text \<open>
  \<^verbatim>\<open>re.sub(r, repl, s)\<close> for a pattern that matches no empty string, which all patterns
  passed to it are, with \<open>repl\<close> the text that is put in: from left to right, every match is
  replaced and the search goes on behind it. Where the source passes a replacement with
  a backslash, the template is expanded first (\<open>re_sub_template\<close> below).
\<close>

function re_sub :: "regex \<Rightarrow> string \<Rightarrow> string \<Rightarrow> string" where
  "re_sub r repl [] = []"
| "re_sub r repl (x # xs) =
     (case mt r (x # xs, []) of
        [] \<Rightarrow> x # re_sub r repl xs
      | (s', c) # _ \<Rightarrow>
          if length s' < length (x # xs) then repl @ re_sub r repl s'
          else x # re_sub r repl xs)"
  by pat_completeness auto
termination
  by (relation "measure (\<lambda>(r, repl, s). length s)") auto

text \<open>\<^verbatim>\<open>sub in s\<close> for strings, and \<^verbatim>\<open>s.rstrip()\<close>.\<close>

fun str_in :: "string \<Rightarrow> string \<Rightarrow> bool" where
  "str_in sub [] = (sub = [])"
| "str_in sub (x # xs) = (prefix sub (x # xs) \<or> str_in sub xs)"

definition rstrip :: "string \<Rightarrow> string" where
  "rstrip s = rev (dropWhile is_space (rev s))"

section \<open>Extraction of the code-side records (\<^verbatim>\<open>all_log_format_ids\<close>, lines 73-311)\<close>

text \<open>
  The files are given as read: the lines (each with its line end) of every
  \<^verbatim>\<open>LogStructure.h\<close> found, of the vehicle's \<^verbatim>\<open>Log.cpp\<close>, and of every \<^verbatim>\<open>.cpp\<close> file walked under
  the two base directories and not skipped by lines 251-255, in the order of the walk. The
  progress line printed for each declaration file (line 87) is left out.
\<close>

record sources =
  structure_files :: "string list list"
  vehicle_log_cpp :: "string list"
  cpp_files :: "string list list"

text \<open>
  Every \<^verbatim>\<open>raise\<close> of lines 36-311, and \<open>BadTemplate\<close> for the exceptions that \<^verbatim>\<open>re.sub\<close>
  raises on a malformed replacement template (lines 225, 287).
\<close>

datatype error =
    DuplicateDefine string
  | ExpectedBackslash
  | MustBeLinestateNone
  | BadLine string
  | ShouldNotBeInsideAtEnd
  | AlreadySeen string
  | ExpectedOutsideAtEnd
  | DidNotMatch string
  | AlreadyHaveId string
  | DidNotGetAnyIds
  | BadTemplate string

datatype state = STATE_OUTSIDE | STATE_INSIDE

datatype linestate = LINESTATE_NONE | LINESTATE_WITHIN

abbreviation dquote :: char where "dquote \<equiv> CHR 0x22"

abbreviation backslash :: char where "backslash \<equiv> CHR 0x5C"

subsection \<open>The patterns of the source\<close>

text \<open>\<^verbatim>\<open>//.*\<close> (lines 95, 163, 267, 272) and \<^verbatim>\<open>\s*$\<close> (lines 96, 164).\<close>

definition pat_comment :: regex where
  "pat_comment = seqs [Str ''//'', Star Dot]"

definition pat_blank :: regex where
  "pat_blank = seqs [Star Space, Eol]"

text \<open>\<^verbatim>\<open>#define (\w+_(?:LABELS|FMT|UNITS|MULTS))\s+(".*")\<close> (line 42).\<close>

definition pat_define :: regex where
  "pat_define =
     seqs [Str ''#define '',
           Group 1 (seqs [Plus Word, Str ''_'',
                          Alt (Str ''LABELS'') (Alt (Str ''FMT'') (Alt (Str ''UNITS'') (Str ''MULTS'')))]),
           Plus Space,
           Group 2 (seqs [Str [dquote], Star Dot, Str [dquote]])]"

text \<open>\<^verbatim>\<open>#define LOG_STRUCTURE_FROM_.*\<close> and \<^verbatim>\<open>#define LOG_RTC_MESSAGE.*\<close> (lines 101-102).\<close>

definition pat_structure_from :: regex where
  "pat_structure_from = seqs [Str ''#define LOG_STRUCTURE_FROM_'', Star Dot]"

definition pat_rtc_message :: regex where
  "pat_rtc_message = seqs [Str ''#define LOG_RTC_MESSAGE'', Star Dot]"

text \<open>\<^verbatim>\<open>\s*{(.*)},\s*\<close> (lines 119, 192): an entry on one line.\<close>

definition pat_entry :: regex where
  "pat_entry = seqs [Star Space, Str ''{'', Group 1 (Star Dot), Str ''},'', Star Space]"

text \<open>\<^verbatim>\<open>\s*{(.*)\\\s*$\<close> (line 124) and \<^verbatim>\<open>(.*)}[,\s\\]*$\<close> (line 135).\<close>

definition pat_open_continued :: regex where
  "pat_open_continued =
     seqs [Star Space, Str ''{'', Group 1 (Star Dot), Str [backslash], Star Space, Eol]"

definition pat_close_continued :: regex where
  "pat_close_continued =
     seqs [Group 1 (Star Dot), Str ''}'',
           Star (Union (Lit CHR '','') (Union Space (Lit backslash))), Eol]"

text \<open>\<^verbatim>\<open>\\$\<close> (lines 139, 209) and \<^verbatim>\<open>"\s*"\<close> (lines 144, 212, 273).\<close>

definition pat_trailing_backslash :: regex where
  "pat_trailing_backslash = seqs [Str [backslash], Eol]"

definition pat_adjacent_quotes :: regex where
  "pat_adjacent_quotes = seqs [Str [dquote], Star Space, Str [dquote]]"

text \<open>\<^verbatim>\<open>};\<close> (line 174), \<^verbatim>\<open>\s*{(.*)\<close> (line 197) and \<^verbatim>\<open>(.*)},?\s*$\<close> (line 205).\<close>

definition pat_table_end :: regex where
  "pat_table_end = Str ''};''"

definition pat_open_vehicle :: regex where
  "pat_open_vehicle = seqs [Star Space, Str ''{'', Group 1 (Star Dot)]"

definition pat_close_vehicle :: regex where
  "pat_close_vehicle = seqs [Group 1 (Star Dot), Str ''}'', Opt (Str '',''), Star Space, Eol]"

text \<open>
  The struct-table shape of line 226:
  \<^verbatim>\<open>\s*LOG_\w+\s*,\s*(?:sizeof|RLOG_SIZE)\([^)]+\)\s*,\s*"(\w+)"\s*,\s*"(\w+)"\s*,\s*"([\w,]+)"\s*,\s*"([^"]*)"\s*,\s*"([^"]*)"\s*(,\s*(true|false))?\s*$\<close>
\<close>

definition pat_struct :: regex where
  "pat_struct =
     seqs [Star Space, Str ''LOG_'', Plus Word, Star Space, Str '','', Star Space,
           Alt (Str ''sizeof'') (Str ''RLOG_SIZE''), Str ''('', Plus (NotLit CHR '')''), Str '')'',
           Star Space, Str '','', Star Space,
           Str [dquote], Group 1 (Plus Word), Str [dquote], Star Space, Str '','', Star Space,
           Str [dquote], Group 2 (Plus Word), Str [dquote], Star Space, Str '','', Star Space,
           Str [dquote], Group 3 (Plus (Union Word (Lit CHR '',''))), Str [dquote],
           Star Space, Str '','', Star Space,
           Str [dquote], Group 4 (Star (NotLit dquote)), Str [dquote], Star Space, Str '','', Star Space,
           Str [dquote], Group 5 (Star (NotLit dquote)), Str [dquote], Star Space,
           Opt (Group 6 (seqs [Str '','', Star Space, Group 7 (Alt (Str ''true'') (Str ''false''))])),
           Star Space, Eol]"

text \<open>
  The call openers of lines 264-265, \<^verbatim>\<open>\s*AP::logger\(\)[.]Write(?:Streaming)?\(\<close> and
  \<^verbatim>\<open>\s*logger[.]Write(?:Streaming)?\(\<close>; the terminator \<^verbatim>\<open>.*\);\<close> of line 275; \<^verbatim>\<open>\s+\<close> of
  line 282.
\<close>

definition pat_open_ap_logger :: regex where
  "pat_open_ap_logger = seqs [Star Space, Str ''AP::logger().Write'', Opt (Str ''Streaming''), Str ''('']"

definition pat_open_logger :: regex where
  "pat_open_logger = seqs [Star Space, Str ''logger.Write'', Opt (Str ''Streaming''), Str ''('']"

definition pat_terminator :: regex where
  "pat_terminator = seqs [Star Dot, Str '');'']"

definition pat_whitespace :: regex where
  "pat_whitespace = Plus Space"

text \<open>
  The call shapes of lines 289 and 292, each starting with one blank:
  \<^verbatim>\<open> logger[.]Write(?:Streaming)?\(\s*"(\w+)"\s*,\s*"([\w,]+)".*\);\<close> and
  \<^verbatim>\<open> AP::logger\(\)[.]Write(?:Streaming)?\(\s*"(\w+)"\s*,\s*"([\w,]+)".*\);\<close>
\<close>

definition pat_call_args :: "regex list" where
  "pat_call_args =
     [Opt (Str ''Streaming''), Str ''('', Star Space,
      Str [dquote], Group 1 (Plus Word), Str [dquote], Star Space, Str '','', Star Space,
      Str [dquote], Group 2 (Plus (Union Word (Lit CHR '',''))), Str [dquote],
      Star Dot, Str '');'']"

definition pat_call_logger :: regex where
  "pat_call_logger = seqs (Str '' logger.Write'' # pat_call_args)"

definition pat_call_ap_logger :: regex where
  "pat_call_ap_logger = seqs (Str '' AP::logger().Write'' # pat_call_args)"

subsection \<open>Macro defines (\<^verbatim>\<open>find_format_defines\<close>, lines 36-49)\<close>

type_synonym format_defines = "(string \<times> string) list"

fun find_format_defines :: "string list \<Rightarrow> format_defines \<Rightarrow> error + format_defines" where
  "find_format_defines [] ret = Inr ret"
| "find_format_defines (line # lines) ret =
     (case re_match pat_define line of
        None \<Rightarrow> find_format_defines lines ret
      | Some m \<Rightarrow>
          (if map_of ret (group m 1) \<noteq> None then Inl (DuplicateDefine (group m 1))
           else find_format_defines lines (ret @ [(group m 1, group m 2)])))"

subsection \<open>Replacement templates of \<^verbatim>\<open>re.sub\<close>\<close>

text \<open>
  \<^verbatim>\<open>re.sub(pattern, repl, string)\<close> reads \<open>repl\<close> as a template before it looks for a match
  (\<^verbatim>\<open>parse_template\<close> of CPython 3.11's \<^verbatim>\<open>re/_parser.py\<close>), and raises when the template is
  malformed. The template is first cut into tokens: a backslash with the character behind
  it is one token, every other character is a token of its own, and a backslash at the end
  of the template raises.
\<close>

fun tokens :: "string \<Rightarrow> string list option" where
  "tokens [] = Some []"
| "tokens [c] = (if c = backslash then None else Some [[c]])"
| "tokens (c # d # cs) =
     (if c = backslash then map_option ((#) [c, d]) (tokens cs)
      else map_option ((#) [c]) (tokens (d # cs)))"

datatype template_item = Literal string | WholeMatch

definition octal_digit :: "string \<Rightarrow> bool" where
  "octal_digit t = (case t of [c] \<Rightarrow> c \<in> set ''01234567'' | _ \<Rightarrow> False)"

definition octal_value :: "string \<Rightarrow> nat" where
  "octal_value ds = foldl (\<lambda>a d. 8 * a + (of_char d - 48)) 0 ds"

text \<open>
  The name in \<^verbatim>\<open>\g<name>\<close> is read by \<^verbatim>\<open>int(name)\<close> when it is no identifier. The patterns
  substituted here have no group, so only the number 0, the whole match, is a valid
  reference: blanks around it (the code points 9-13, 32, 133 and 160), one sign, and zeros
  with single underscores between them.
\<close>

definition int_space :: "char \<Rightarrow> bool" where
  "int_space c = (let n = (of_char c :: nat) in (9 \<le> n \<and> n \<le> 13) \<or> n = 32 \<or> n = 133 \<or> n = 160)"

definition zero_reference :: "string \<Rightarrow> bool" where
  "zero_reference name =
     (let core = rev (dropWhile int_space (rev (dropWhile int_space name)));
          digits = (case core of
                      c # cs \<Rightarrow> if c = CHR ''+'' \<or> c = CHR ''-'' then cs else core
                    | [] \<Rightarrow> [])
      in digits \<noteq> [] \<and> hd digits = CHR ''0'' \<and> last digits = CHR ''0'' \<and>
         set digits \<subseteq> {CHR ''0'', CHR ''_''} \<and> \<not> str_in ''__'' digits)"

text \<open>
  The loop of \<^verbatim>\<open>parse_template\<close> over the tokens, for a pattern without groups. \<open>None\<close> is
  any of its raises: a missing \<^verbatim>\<open><\<close> or \<^verbatim>\<open>>\<close>, an empty, unknown or non-zero group name, a
  reference to a numbered group, an octal escape above \<^verbatim>\<open>0o377\<close>, a bad escape.
\<close>

function parse_template :: "string list \<Rightarrow> template_item list option" where
  "parse_template [] = Some []"
| "parse_template (t # ts) =
     (case t of
        [c] \<Rightarrow> map_option ((#) (Literal [c])) (parse_template ts)
      | [b, c] \<Rightarrow>
          (if c = CHR ''g'' then
             (case ts of
                [] \<Rightarrow> None
              | u # us \<Rightarrow>
                  if u \<noteq> ''<'' \<or> dropWhile (\<lambda>x. x \<noteq> ''>'') us = []
                     \<or> takeWhile (\<lambda>x. x \<noteq> ''>'') us = []
                     \<or> \<not> zero_reference (concat (takeWhile (\<lambda>x. x \<noteq> ''>'') us))
                  then None
                  else map_option ((#) WholeMatch)
                         (parse_template (tl (dropWhile (\<lambda>x. x \<noteq> ''>'') us))))
           else if c = CHR ''0'' then
             map_option
               ((#) (Literal [char_of (octal_value
                        (CHR ''0'' # concat (takeWhile octal_digit (take 2 ts))) mod 256)]))
               (parse_template (drop (length (takeWhile octal_digit (take 2 ts))) ts))
           else if c \<in> set ''123456789'' then
             (case ts of
                d2 # d3 # us \<Rightarrow>
                  if c \<in> set ''1234567'' \<and> octal_digit d2 \<and> octal_digit d3
                     \<and> octal_value (c # d2 @ d3) \<le> 255
                  then map_option ((#) (Literal [char_of (octal_value (c # d2 @ d3))]))
                         (parse_template us)
                  else None
              | _ \<Rightarrow> None)
           else if c = CHR ''a'' then map_option ((#) (Literal [CHR 0x07])) (parse_template ts)
           else if c = CHR ''b'' then map_option ((#) (Literal [CHR 0x08])) (parse_template ts)
           else if c = CHR ''f'' then map_option ((#) (Literal [CHR 0x0C])) (parse_template ts)
           else if c = CHR ''n'' then map_option ((#) (Literal [CHR 0x0A])) (parse_template ts)
           else if c = CHR ''r'' then map_option ((#) (Literal [CHR 0x0D])) (parse_template ts)
           else if c = CHR ''t'' then map_option ((#) (Literal [CHR 0x09])) (parse_template ts)
           else if c = CHR ''v'' then map_option ((#) (Literal [CHR 0x0B])) (parse_template ts)
           else if c = backslash then map_option ((#) (Literal [backslash])) (parse_template ts)
           else if (65 \<le> (of_char c :: nat) \<and> (of_char c :: nat) \<le> 90)
                   \<or> (97 \<le> (of_char c :: nat) \<and> (of_char c :: nat) \<le> 122)
           then None
           else map_option ((#) (Literal [b, c])) (parse_template ts))
      | _ \<Rightarrow> None)"
  by pat_completeness auto
termination
proof -
  have d: "length (dropWhile (\<lambda>x. x \<noteq> ''>'') us) - Suc 0 < Suc (Suc (length us))"
    for us :: "string list"
    using length_dropWhile_le[of "\<lambda>x. x \<noteq> ''>''" us] by simp
  show ?thesis
    by (relation "measure length") (auto simp: d)
qed

text \<open>\<^verbatim>\<open>expand_template\<close>: the literals as they are, the whole match for group 0.\<close>

definition expand_template :: "template_item list \<Rightarrow> string \<Rightarrow> string" where
  "expand_template items matched =
     concat (map (\<lambda>i. case i of Literal s \<Rightarrow> s | WholeMatch \<Rightarrow> matched) items)"

text \<open>
  \<^verbatim>\<open>re.sub(define, value, text)\<close> of lines 225 and 287. A define's name is made of word
  characters (line 42), so as a pattern it stands for itself and has no group; the value is
  the template.
\<close>

definition re_sub_template :: "string \<Rightarrow> string \<Rightarrow> string \<Rightarrow> error + string" where
  "re_sub_template define v text =
     (case tokens v of
        None \<Rightarrow> Inl (BadTemplate v)
      | Some ts \<Rightarrow>
          (case parse_template ts of
             None \<Rightarrow> Inl (BadTemplate v)
           | Some items \<Rightarrow> Inr (re_sub (Str define) (expand_template items define) text)))"

text \<open>
  The loop \<^verbatim>\<open>for define in defines: text = re.sub(define, defines[define], text)\<close> of lines
  224-225 and 286-287, over the table in the order of its entries.
\<close>

fun substitute_defines :: "format_defines \<Rightarrow> string \<Rightarrow> error + string" where
  "substitute_defines [] text = Inr text"
| "substitute_defines ((define, v) # ds) text =
     (case re_sub_template define v text of
        Inl e \<Rightarrow> Inl e
      | Inr text' \<Rightarrow> substitute_defines ds text')"

subsection \<open>Struct-table scan of a declaration file (lines 86-153)\<close>

record scan =
  state :: state
  linestate :: linestate
  partial_line :: string
  message_infos :: "string list"

text \<open>The continuation branch of lines 137-146.\<close>

definition continuation_line :: "string \<Rightarrow> error + string" where
  "continuation_line line =
     (let line1 = rstrip line;
          newline = re_sub pat_trailing_backslash [] line1
      in if newline = line1 then Inl ExpectedBackslash
         else Inr (re_sub pat_adjacent_quotes [] (rstrip newline)))"

text \<open>One turn of the loop of lines 92-150.\<close>

definition structure_line :: "scan \<Rightarrow> string \<Rightarrow> error + scan" where
  "structure_line sc raw =
     (let line = re_sub pat_comment [] raw in
      if re_match pat_blank line \<noteq> None then Inr sc
      else if state sc = STATE_OUTSIDE then
        (if str_in ''#define LOG_COMMON_STRUCTURES'' line
            \<or> re_match pat_structure_from line \<noteq> None
            \<or> re_match pat_rtc_message line \<noteq> None
         then Inr (sc\<lparr>state := STATE_INSIDE\<rparr>)
         else Inr sc)
      else if linestate sc = LINESTATE_NONE then
        (if str_in ''LOG_STRUCTURE_FROM_'' line \<or> str_in ''LOG_RTC_MESSAGE'' line then Inr sc
         else
           (case re_match pat_entry line of
              Some m \<Rightarrow> Inr (sc\<lparr>message_infos := message_infos sc @ [group m 1]\<rparr>)
            | None \<Rightarrow>
                (case re_match pat_open_continued line of
                   None \<Rightarrow> Inr (sc\<lparr>state := STATE_OUTSIDE\<rparr>)
                 | Some m \<Rightarrow>
                     Inr (sc\<lparr>partial_line := group m 1, linestate := LINESTATE_WITHIN\<rparr>))))
      else
        (case re_match pat_close_continued line of
           None \<Rightarrow>
             (case continuation_line line of
                Inl e \<Rightarrow> Inl e
              | Inr l \<Rightarrow> Inr (sc\<lparr>partial_line := partial_line sc @ l\<rparr>))
         | Some m \<Rightarrow>
             Inr (sc\<lparr>message_infos := message_infos sc @ [partial_line sc @ group m 1],
                      linestate := LINESTATE_NONE\<rparr>)))"

fun structure_lines :: "scan \<Rightarrow> string list \<Rightarrow> error + scan" where
  "structure_lines sc [] = Inr sc"
| "structure_lines sc (line # lines) =
     (case structure_line sc line of
        Inl e \<Rightarrow> Inl e
      | Inr sc' \<Rightarrow> structure_lines sc' lines)"

text \<open>
  One declaration file (lines 88-153): both states are reset, the entries found so far and
  the buffer are kept, and the file must not end within an entry.
\<close>

definition structure_file :: "scan \<Rightarrow> string list \<Rightarrow> error + scan" where
  "structure_file sc lines =
     (case structure_lines (sc\<lparr>state := STATE_OUTSIDE, linestate := LINESTATE_NONE\<rparr>) lines of
        Inl e \<Rightarrow> Inl e
      | Inr sc' \<Rightarrow>
          if linestate sc' \<noteq> LINESTATE_NONE then Inl MustBeLinestateNone else Inr sc')"

fun scan_structure_files :: "scan \<Rightarrow> string list list \<Rightarrow> error + scan" where
  "scan_structure_files sc [] = Inr sc"
| "scan_structure_files sc (f # fs) =
     (case structure_file sc f of
        Inl e \<Rightarrow> Inl e
      | Inr sc' \<Rightarrow> scan_structure_files sc' fs)"

subsection \<open>Struct-table scan of the vehicle's \<^verbatim>\<open>Log.cpp\<close> (lines 155-221)\<close>

text \<open>
  One turn of the loop of lines 160-218. The flag says whether the loop was left by
  \<^verbatim>\<open>break\<close> (line 176).
\<close>

definition vehicle_line :: "scan \<Rightarrow> string \<Rightarrow> error + scan \<times> bool" where
  "vehicle_line sc raw =
     (let line = re_sub pat_comment [] raw in
      if re_match pat_blank line \<noteq> None then Inr (sc, False)
      else if state sc = STATE_OUTSIDE then
        (if str_in ''const LogStructure'' line \<or> str_in ''const struct LogStructure'' line
         then Inr (sc\<lparr>state := STATE_INSIDE\<rparr>, False)
         else Inr (sc, False))
      else if re_match pat_table_end line \<noteq> None then Inr (sc\<lparr>state := STATE_OUTSIDE\<rparr>, True)
      else if linestate sc = LINESTATE_NONE then
        (if str_in ''#if HAL_QUADPLANE_ENABLED'' line then Inr (sc, False)
         else if str_in ''#if FRAME_CONFIG == HELI_FRAME'' line then Inr (sc, False)
         else if str_in ''#if AC_PRECLAND_ENABLED'' line then Inr (sc, False)
         else if str_in ''#if AP_PLANE_OFFBOARD_GUIDED_SLEW_ENABLED'' line then Inr (sc, False)
         else if str_in ''#end'' line then Inr (sc, False)
         else if str_in ''LOG_COMMON_STRUCTURES'' line then Inr (sc, False)
         else
           (case re_match pat_entry line of
              Some m \<Rightarrow> Inr (sc\<lparr>message_infos := message_infos sc @ [group m 1]\<rparr>, False)
            | None \<Rightarrow>
                (case re_match pat_open_vehicle line of
                   None \<Rightarrow> Inl (BadLine line)
                 | Some m \<Rightarrow>
                     Inr (sc\<lparr>partial_line := group m 1, linestate := LINESTATE_WITHIN\<rparr>, False))))
      else
        (case re_match pat_close_vehicle line of
           None \<Rightarrow>
             Inr (sc\<lparr>partial_line := partial_line sc @
                        re_sub pat_adjacent_quotes []
                          (rstrip (re_sub pat_trailing_backslash [] (rstrip line)))\<rparr>, False)
         | Some m \<Rightarrow>
             Inr (sc\<lparr>message_infos := message_infos sc @ [partial_line sc @ group m 1],
                      linestate := LINESTATE_NONE\<rparr>, False)))"

fun vehicle_lines :: "scan \<Rightarrow> string list \<Rightarrow> error + scan" where
  "vehicle_lines sc [] = Inr sc"
| "vehicle_lines sc (line # lines) =
     (case vehicle_line sc line of
        Inl e \<Rightarrow> Inl e
      | Inr (sc', left) \<Rightarrow> if left then Inr sc' else vehicle_lines sc' lines)"

definition vehicle_file :: "scan \<Rightarrow> string list \<Rightarrow> error + scan" where
  "vehicle_file sc lines =
     (case vehicle_lines (sc\<lparr>state := STATE_OUTSIDE, linestate := LINESTATE_NONE\<rparr>) lines of
        Inl e \<Rightarrow> Inl e
      | Inr sc' \<Rightarrow>
          if state sc' = STATE_INSIDE then Inl ShouldNotBeInsideAtEnd else Inr sc')"

subsection \<open>Record normalizer for struct-table entries (lines 223-238)\<close>

text \<open>
  Lines 224-229, the body of the loop in front of the duplicate test: the record of an entry
  that matches the struct-table shape, \<open>None\<close> for an entry that does not (line 228).
\<close>

definition struct_record :: "format_defines \<Rightarrow> string \<Rightarrow> error + message_record option" where
  "struct_record defs message_info =
     (case substitute_defines defs message_info of
        Inl e \<Rightarrow> Inl e
      | Inr text \<Rightarrow>
          (case re_match pat_struct text of
             None \<Rightarrow> Inr None
           | Some m \<Rightarrow>
               Inr (Some \<lparr>m_name = group m 1, m_format = Some (group m 2),
                           m_labels = group m 3, m_units = Some (group m 4),
                           m_multipliers = Some (group m 5)\<rparr>)))"

fun struct_records :: "format_defines \<Rightarrow> string list \<Rightarrow> code_ids \<Rightarrow> error + code_ids" where
  "struct_records defs [] ids = Inr ids"
| "struct_records defs (message_info # rest) ids =
     (case struct_record defs message_info of
        Inl e \<Rightarrow> Inl e
      | Inr None \<Rightarrow> struct_records defs rest ids
      | Inr (Some r) \<Rightarrow>
          (if map_of ids (m_name r) \<noteq> None then Inl (AlreadySeen (m_name r))
           else struct_records defs rest (ids @ [(m_name r, r)])))"

subsection \<open>Call-site scan (lines 246-280)\<close>

record call_scan =
  c_state :: state
  log_write_statement :: string
  log_write_statements :: "string list"

text \<open>One turn of the loop of lines 259-277.\<close>

definition call_line :: "call_scan \<Rightarrow> string \<Rightarrow> call_scan" where
  "call_line cs line =
     (if c_state cs = STATE_OUTSIDE then
        (if re_match pat_open_ap_logger line \<noteq> None \<or> re_match pat_open_logger line \<noteq> None
         then cs\<lparr>c_state := STATE_INSIDE, log_write_statement := re_sub pat_comment [] line\<rparr>
         else cs)
      else
        (let line1 = re_sub pat_adjacent_quotes [] (re_sub pat_comment [] line);
             stmt = log_write_statement cs @ line1
         in if re_match pat_terminator line1 \<noteq> None
            then cs\<lparr>log_write_statement := stmt,
                    log_write_statements := log_write_statements cs @ [stmt],
                    c_state := STATE_OUTSIDE\<rparr>
            else cs\<lparr>log_write_statement := stmt\<rparr>))"

text \<open>
  One implementation file (lines 257-280). The state is set on entering a directory
  (line 248) and is \<^verbatim>\<open>STATE_OUTSIDE\<close> after every file that does not raise, so it is passed on
  from file to file.
\<close>

definition call_file :: "call_scan \<Rightarrow> string list \<Rightarrow> error + call_scan" where
  "call_file cs lines =
     (let cs' = foldl call_line (cs\<lparr>log_write_statement := []\<rparr>) lines in
      if c_state cs' \<noteq> STATE_OUTSIDE then Inl ExpectedOutsideAtEnd else Inr cs')"

fun scan_call_files :: "call_scan \<Rightarrow> string list list \<Rightarrow> error + call_scan" where
  "scan_call_files cs [] = Inr cs"
| "scan_call_files cs (f # fs) =
     (case call_file cs f of
        Inl e \<Rightarrow> Inl e
      | Inr cs' \<Rightarrow> scan_call_files cs' fs)"

subsection \<open>Record normalizer for call-site statements (lines 282-306)\<close>

text \<open>
  Lines 286-297, on a statement whose whitespace runs are already single blanks: the name
  and the labels of a statement that matches one of the two call shapes.
\<close>

definition call_result :: "format_defines \<Rightarrow> string \<Rightarrow> error + string \<times> string" where
  "call_result defs statement =
     (case substitute_defines defs statement of
        Inl e \<Rightarrow> Inl e
      | Inr stmt \<Rightarrow>
          (case re_match pat_call_logger stmt of
             Some m \<Rightarrow> Inr (group m 1, group m 2)
           | None \<Rightarrow>
               (case re_match pat_call_ap_logger stmt of
                  Some m \<Rightarrow> Inr (group m 1, group m 2)
                | None \<Rightarrow> Inl (DidNotMatch stmt))))"

fun call_results :: "format_defines \<Rightarrow> string list \<Rightarrow> (string \<times> string) list \<Rightarrow> error + (string \<times> string) list" where
  "call_results defs [] results = Inr results"
| "call_results defs (statement # rest) results =
     (case call_result defs statement of
        Inl e \<Rightarrow> Inl e
      | Inr result \<Rightarrow> call_results defs rest (results @ [result]))"

text \<open>Lines 299-306.\<close>

fun merge_results :: "(string \<times> string) list \<Rightarrow> code_ids \<Rightarrow> error + code_ids" where
  "merge_results [] ids = Inr ids"
| "merge_results ((nm, lbls) # rest) ids =
     (if map_of ids nm \<noteq> None then Inl (AlreadyHaveId nm)
      else merge_results rest
             (ids @ [(nm, \<lparr>m_name = nm, m_format = None, m_labels = lbls,
                            m_units = None, m_multipliers = None\<rparr>)]))"

subsection \<open>The whole extraction\<close>

definition all_log_format_ids :: "sources \<Rightarrow> error + code_ids" where
  "all_log_format_ids src =
     (case find_format_defines (concat (structure_files src)) [] of
        Inl e \<Rightarrow> Inl e
      | Inr defs \<Rightarrow>
     (case scan_structure_files
             \<lparr>state = STATE_OUTSIDE, linestate = LINESTATE_NONE, partial_line = [],
              message_infos = []\<rparr> (structure_files src) of
        Inl e \<Rightarrow> Inl e
      | Inr sc \<Rightarrow>
     (case vehicle_file sc (vehicle_log_cpp src) of
        Inl e \<Rightarrow> Inl e
      | Inr sc' \<Rightarrow>
     (case struct_records defs (message_infos sc') [] of
        Inl e \<Rightarrow> Inl e
      | Inr ids \<Rightarrow>
     (case scan_call_files
             \<lparr>c_state = STATE_OUTSIDE, log_write_statement = [], log_write_statements = []\<rparr>
             (cpp_files src) of
        Inl e \<Rightarrow> Inl e
      | Inr cs \<Rightarrow>
     (case call_results defs (map (re_sub pat_whitespace '' '') (log_write_statements cs)) [] of
        Inl e \<Rightarrow> Inl e
      | Inr results \<Rightarrow>
     (case merge_results results ids of
        Inl e \<Rightarrow> Inl e
      | Inr ids' \<Rightarrow> if length ids' = 0 then Inl DidNotGetAnyIds else Inr ids')))))))"

section \<open>Properties of the cross-reference validator\<close>

subsection \<open>Sorted items of a dictionary\<close>

lemma distinct_map_insort_key:
  "distinct (map f (insort_key f x xs)) = (f x \<notin> f ` set xs \<and> distinct (map f xs))"
  by (induction xs) (auto simp: set_insort_key)

lemma distinct_map_sort_key: "distinct (map f (sort_key f xs)) = distinct (map f xs)"
  by (induction xs) (auto simp: distinct_map_insort_key)

lemma sorted_items_keys: "fst ` set (sorted_items d) = fst ` set d"
  unfolding sorted_items_def using AList.clearjunk_keys_set[of d] by simp

lemma sorted_items_distinct: "distinct (map fst (sorted_items d))"
  unfolding sorted_items_def by (simp add: distinct_map_sort_key AList.distinct_clearjunk)

lemma sorted_items_map_of: "map_of (sorted_items d) = map_of d"
proof -
  have "map_of (sort_key fst (AList.clearjunk d)) = map_of (AList.clearjunk d)"
    by (subst map_of_inject_set)
       (simp_all add: distinct_map_sort_key AList.distinct_clearjunk)
  then show ?thesis by (simp add: sorted_items_def AList.map_of_clearjunk)
qed

lemma sorted_items_mem: "(n, r) \<in> set (sorted_items d) \<longleftrightarrow> map_of d n = Some r"
  using sorted_items_distinct[of d] sorted_items_map_of[of d]
  by (metis map_of_eq_Some_iff)

lemma check_code_names_append:
  "check_code_names wl docco (xs @ ys) st =
     (case check_code_names wl docco xs st of
        Inl log \<Rightarrow> Inl log
      | Inr st' \<Rightarrow> check_code_names wl docco ys st')"
  by (induction xs arbitrary: st) (auto split: option.splits sum.splits)

subsection \<open>The label loop\<close>

lemma check_labels_undocumented:
  "check_labels wl nm docs seen ls st = Inr st' \<Longrightarrow> undocumented st' = undocumented st"
  by (induction ls arbitrary: seen st) (auto split: if_splits)

lemma check_labels_not_wl:
  "nm \<notin> wl \<Longrightarrow> check_labels wl nm docs seen ls st = Inr st' \<Longrightarrow> st' = st \<and> set ls \<subseteq> set docs"
  by (induction ls arbitrary: seen st) (auto split: if_splits)

lemma check_labels_wl:
  "nm \<in> wl \<Longrightarrow> check_labels wl nm docs seen ls st = Inr st' \<Longrightarrow>
     st' = st\<lparr>out := out st @ map (\<lambda>l. WarnNotDocumented nm l docs) (filter (\<lambda>l. l \<notin> set docs) ls),
              overdocumented := (if set ls \<subseteq> set docs then overdocumented st
                                 else removeAll nm (overdocumented st))\<rparr>"
proof (induction ls arbitrary: seen st)
  case Nil
  then show ?case by simp
next
  case (Cons a ls)
  show ?case
  proof (cases "a \<in> set docs")
    case True
    with Cons.prems have "check_labels wl nm docs (a # seen) ls st = Inr st'"
      by (simp split: if_splits)
    from Cons.IH[OF Cons.prems(1) this] True show ?thesis by simp
  next
    case False
    with Cons.prems have "check_labels wl nm docs (a # seen) ls
             (st\<lparr>out := out st @ [WarnNotDocumented nm a docs],
                 overdocumented := removeAll nm (overdocumented st)\<rparr>) = Inr st'"
      by (simp split: if_splits)
    from Cons.IH[OF Cons.prems(1) this] False show ?thesis by simp
  qed
qed

lemma check_labels_wl_distinct:
  "nm \<in> wl \<Longrightarrow> distinct ls \<Longrightarrow> set ls \<inter> set seen = {} \<Longrightarrow>
     check_labels wl nm docs seen ls st =
       Inr (st\<lparr>out := out st @ map (\<lambda>l. WarnNotDocumented nm l docs) (filter (\<lambda>l. l \<notin> set docs) ls),
              overdocumented := (if set ls \<subseteq> set docs then overdocumented st
                                 else removeAll nm (overdocumented st))\<rparr>)"
proof (induction ls arbitrary: seen st)
  case Nil
  then show ?case by simp
next
  case (Cons a ls)
  from Cons.prems have d: "distinct ls" "set ls \<inter> set (a # seen) = {}" "a \<notin> set seen"
    by auto
  show ?case
    using d(3) Cons.prems(1) by (simp add: Cons.IH[OF Cons.prems(1) d(1) d(2)])
qed

lemma check_labels_first_missing:
  "nm \<notin> wl \<Longrightarrow> set pre \<subseteq> set docs \<Longrightarrow> distinct pre \<Longrightarrow> set pre \<inter> set seen = {} \<Longrightarrow>
   l \<notin> set docs \<Longrightarrow> l \<notin> set seen \<Longrightarrow>
     check_labels wl nm docs seen (pre @ l # post) st = Inl (out st @ [ErrNotDocumented nm l docs])"
proof (induction pre arbitrary: seen)
  case Nil
  then show ?case by simp
next
  case (Cons a pre)
  from Cons.prems have a: "a \<in> set docs" "a \<notin> set seen" "a \<noteq> l" by auto
  from Cons.prems a have "check_labels wl nm docs (a # seen) (pre @ l # post) st =
      Inl (out st @ [ErrNotDocumented nm l docs])"
    by (intro Cons.IH) auto
  with a show ?case by simp
qed


subsection \<open>The name loops\<close>

lemma check_labels_overdocumented_distinct:
  "check_labels wl nm docs seen ls st = Inr st' \<Longrightarrow> distinct (overdocumented st) \<Longrightarrow>
     distinct (overdocumented st')"
proof (cases "nm \<in> wl")
  case True
  assume a: "check_labels wl nm docs seen ls st = Inr st'" and d: "distinct (overdocumented st)"
  from check_labels_wl[OF True a] d show ?thesis by (simp add: distinct_removeAll)
next
  case False
  assume a: "check_labels wl nm docs seen ls st = Inr st'" and d: "distinct (overdocumented st)"
  from check_labels_not_wl[OF False a] d show ?thesis by simp
qed

lemma check_labels_overdocumented_set:
  "check_labels wl nm docs seen ls st = Inr st' \<Longrightarrow>
     set (overdocumented st') =
       (if nm \<in> wl \<and> \<not> set ls \<subseteq> set docs then set (overdocumented st) - {nm}
        else set (overdocumented st))"
proof (cases "nm \<in> wl")
  case True
  assume "check_labels wl nm docs seen ls st = Inr st'"
  from check_labels_wl[OF True this] True show ?thesis by auto
next
  case False
  assume "check_labels wl nm docs seen ls st = Inr st'"
  from check_labels_not_wl[OF False this] False show ?thesis by simp
qed

lemma check_code_names_undocumented:
  "check_code_names wl docco items st = Inr st' \<Longrightarrow>
     set (undocumented st') =
       set (undocumented st) \<union> {n \<in> fst ` set items. map_of docco n = None \<and> n \<notin> wl}"
proof (induction items arbitrary: st)
  case Nil
  then show ?case by simp
next
  case (Cons p items)
  obtain nm r where p: "p = (nm, r)" by (cases p)
  show ?case
  proof (cases "map_of docco nm")
    case None
    with Cons.prems p have
      "check_code_names wl docco items
         (if nm \<notin> wl then st\<lparr>undocumented := List.insert nm (undocumented st)\<rparr> else st) = Inr st'"
      by simp
    from Cons.IH[OF this] None p show ?thesis by auto
  next
    case (Some docs)
    with Cons.prems p obtain st1 where
      l: "check_labels wl nm docs [] (split_on CHR '','' (m_labels r))
            (if nm \<in> wl then st\<lparr>overdocumented := List.insert nm (overdocumented st)\<rparr> else st)
          = Inr st1"
      and n: "check_code_names wl docco items st1 = Inr st'"
      by (auto split: sum.splits)
    from check_labels_undocumented[OF l] have "undocumented st1 = undocumented st" by simp
    with Cons.IH[OF n] Some p show ?thesis by auto
  qed
qed

lemma check_code_names_undocumented_distinct:
  "check_code_names wl docco items st = Inr st' \<Longrightarrow> distinct (undocumented st) \<Longrightarrow>
     distinct (undocumented st')"
proof (induction items arbitrary: st)
  case Nil
  then show ?case by simp
next
  case (Cons p items)
  obtain nm r where p: "p = (nm, r)" by (cases p)
  show ?case
  proof (cases "map_of docco nm")
    case None
    with Cons.prems p have
      "check_code_names wl docco items
         (if nm \<notin> wl then st\<lparr>undocumented := List.insert nm (undocumented st)\<rparr> else st) = Inr st'"
      by simp
    from Cons.IH[OF this] Cons.prems(2) show ?thesis by simp
  next
    case (Some docs)
    with Cons.prems p obtain st1 where
      l: "check_labels wl nm docs [] (split_on CHR '','' (m_labels r))
            (if nm \<in> wl then st\<lparr>overdocumented := List.insert nm (overdocumented st)\<rparr> else st)
          = Inr st1"
      and n: "check_code_names wl docco items st1 = Inr st'"
      by (auto split: sum.splits)
    from check_labels_undocumented[OF l] have "undocumented st1 = undocumented st" by simp
    with Cons.IH[OF n] Cons.prems(2) show ?thesis by simp
  qed
qed

lemma check_code_names_overdocumented_distinct:
  "check_code_names wl docco items st = Inr st' \<Longrightarrow> distinct (overdocumented st) \<Longrightarrow>
     distinct (overdocumented st')"
proof (induction items arbitrary: st)
  case Nil
  then show ?case by simp
next
  case (Cons p items)
  obtain nm r where p: "p = (nm, r)" by (cases p)
  show ?case
  proof (cases "map_of docco nm")
    case None
    with Cons.prems p have
      "check_code_names wl docco items
         (if nm \<notin> wl then st\<lparr>undocumented := List.insert nm (undocumented st)\<rparr> else st) = Inr st'"
      by simp
    from Cons.IH[OF this] Cons.prems(2) show ?thesis by simp
  next
    case (Some docs)
    with Cons.prems p obtain st1 where
      l: "check_labels wl nm docs [] (split_on CHR '','' (m_labels r))
            (if nm \<in> wl then st\<lparr>overdocumented := List.insert nm (overdocumented st)\<rparr> else st)
          = Inr st1"
      and n: "check_code_names wl docco items st1 = Inr st'"
      by (auto split: sum.splits)
    from check_labels_overdocumented_distinct[OF l] Cons.prems(2)
    have "distinct (overdocumented st1)" by simp
    with Cons.IH[OF n] show ?thesis by simp
  qed
qed

lemma check_code_names_overdocumented:
  "check_code_names wl docco items st = Inr st' \<Longrightarrow> distinct (map fst items) \<Longrightarrow>
   set (overdocumented st) \<inter> fst ` set items = {} \<Longrightarrow>
     set (overdocumented st') =
       set (overdocumented st) \<union>
       {n. \<exists>r docs. (n, r) \<in> set items \<and> n \<in> wl \<and> map_of docco n = Some docs \<and>
              set (split_on CHR '','' (m_labels r)) \<subseteq> set docs}"
proof (induction items arbitrary: st)
  case Nil
  then show ?case by simp
next
  case (Cons p items)
  obtain nm r where p: "p = (nm, r)" by (cases p)
  from Cons.prems p have dist: "distinct (map fst items)" and nm: "nm \<notin> fst ` set items"
    and nmo: "nm \<notin> set (overdocumented st)"
    and disj: "set (overdocumented st) \<inter> fst ` set items = {}"
    by auto
  show ?case
  proof (cases "map_of docco nm")
    case None
    with Cons.prems p have n:
      "check_code_names wl docco items
         (if nm \<notin> wl then st\<lparr>undocumented := List.insert nm (undocumented st)\<rparr> else st) = Inr st'"
      by simp
    have "set (overdocumented (if nm \<notin> wl then st\<lparr>undocumented := List.insert nm (undocumented st)\<rparr> else st))
            \<inter> fst ` set items = {}"
      using disj by simp
    from Cons.IH[OF n dist this] None p show ?thesis by auto
  next
    case (Some docs)
    let ?st0 = "if nm \<in> wl then st\<lparr>overdocumented := List.insert nm (overdocumented st)\<rparr> else st"
    from Some Cons.prems p obtain st1 where
      l: "check_labels wl nm docs [] (split_on CHR '','' (m_labels r)) ?st0 = Inr st1"
      and n: "check_code_names wl docco items st1 = Inr st'"
      by (auto split: sum.splits)
    have s1: "set (overdocumented st1) =
        (if nm \<in> wl \<and> set (split_on CHR '','' (m_labels r)) \<subseteq> set docs
         then insert nm (set (overdocumented st)) else set (overdocumented st))"
      using check_labels_overdocumented_set[OF l] nmo by auto
    have "set (overdocumented st1) \<inter> fst ` set items = {}"
      using s1 disj nm by auto
    from Cons.IH[OF n dist this] have
      "set (overdocumented st') = set (overdocumented st1) \<union>
         {n. \<exists>r docs. (n, r) \<in> set items \<and> n \<in> wl \<and> map_of docco n = Some docs \<and>
              set (split_on CHR '','' (m_labels r)) \<subseteq> set docs}" .
    moreover have "\<And>r'. (nm, r') \<notin> set items" using nm by force
    ultimately show ?thesis using s1 Some p by auto
  qed
qed

lemma check_doc_names_Inr:
  "check_doc_names wl code items (missing, log) = Inr (missing', log') \<Longrightarrow>
     log' = log \<and>
     missing' = missing @ filter (\<lambda>n. map_of code n = None \<and> n \<notin> wl) (map fst items)"
proof (induction items arbitrary: missing)
  case Nil
  then show ?case by simp
next
  case (Cons p items)
  obtain nm docs where p: "p = (nm, docs)" by (cases p)
  from Cons.prems p obtain m1 where
    n: "check_doc_names wl code items (m1, log) = Inr (missing', log')"
    and m1: "m1 = missing @ filter (\<lambda>n. map_of code n = None \<and> n \<notin> wl) [nm]"
    by (auto split: option.splits if_splits)
  from Cons.IH[OF n] m1 p show ?case by simp
qed


lemma sorted_keys_sorted: "sorted (map fst (sorted_items d))"
  unfolding sorted_items_def by (rule sorted_sort_key)

lemma sort_eq_filter_keys:
  assumes "distinct xs" and "set xs = {n \<in> fst ` set d. P n}"
  shows "sort xs = filter P (map fst (sorted_items d))"
proof (rule sorted_distinct_set_unique)
  show "sorted (sort xs)" by simp
  show "distinct (sort xs)" using assms(1) by simp
  show "sorted (filter P (map fst (sorted_items d)))"
    using sorted_keys_sorted[of d] by (rule sorted_wrt_filter)
  show "distinct (filter P (map fst (sorted_items d)))"
    using sorted_items_distinct[of d] by simp
  show "set (sort xs) = set (filter P (map fst (sorted_items d)))"
    using assms(2) sorted_items_keys[of d] by auto
qed

lemma check_doc_labels_Some:
  "check_doc_labels nm cl docs = Some e \<Longrightarrow> \<exists>l \<in> set docs. l \<notin> set cl \<and> e = ErrFieldNotInCode nm l"
  by (induction docs) (auto split: if_splits)

lemma check_doc_labels_None: "check_doc_labels nm cl docs = None \<longleftrightarrow> set docs \<subseteq> set cl"
  by (induction docs) auto

lemma check_doc_names_missing_field:
  assumes "map_of code nm = Some r" and "\<not> set docs \<subseteq> set (split_on CHR '','' (m_labels r))"
  shows "\<exists>l \<in> set docs. l \<notin> set (split_on CHR '','' (m_labels r)) \<and>
           check_doc_names wl code ((nm, docs) # rest) (missing, log) =
             Inl (log @ [ErrFieldNotInCode nm l])"
proof -
  from assms(2) obtain e where e: "check_doc_labels nm (split_on CHR '','' (m_labels r)) docs = Some e"
    using check_doc_labels_None[of nm "split_on CHR '','' (m_labels r)" docs] by (cases "check_doc_labels nm (split_on CHR '','' (m_labels r)) docs") auto
  from check_doc_labels_Some[OF e] obtain l where
    "l \<in> set docs" "l \<notin> set (split_on CHR '','' (m_labels r))" "e = ErrFieldNotInCode nm l" by blast
  with e assms(1) show ?thesis by auto
qed

subsection \<open>Changing the labels of undocumented names\<close>

lemma delete_map_keep_key:
  assumes "\<And>x. fst (g x) = fst x"
  shows "AList.delete k (map g xs) = map g (AList.delete k xs)"
  by (induction xs) (auto simp: AList.delete_eq case_prod_beta assms)

lemma clearjunk_map_keep_key:
  assumes "\<And>x. fst (g x) = fst x"
  shows "AList.clearjunk (map g xs) = map g (AList.clearjunk xs)"
proof (induction xs rule: AList.clearjunk.induct)
  case 1
  then show ?case by simp
next
  case (2 p ps)
  then show ?case by (simp add: assms delete_map_keep_key[OF assms])
qed

lemma insort_key_map_keep_key:
  assumes "\<And>x. fst (g x) = fst x"
  shows "insort_key fst (g x) (map g xs) = map g (insort_key fst x xs)"
  by (induction xs) (auto simp: assms)

lemma sort_key_map_keep_key:
  assumes "\<And>x. fst (g x) = fst x"
  shows "sort_key fst (map g xs) = map g (sort_key fst xs)"
  by (induction xs) (auto simp: insort_key_map_keep_key[OF assms])

lemma sorted_items_map_keep_key:
  assumes "\<And>x. fst (g x) = fst x"
  shows "sorted_items (map g xs) = map g (sorted_items xs)"
  unfolding sorted_items_def
  by (simp add: clearjunk_map_keep_key[OF assms] sort_key_map_keep_key[OF assms])

lemma map_of_map_values:
  "map_of (map (\<lambda>(n, r). (n, h n r)) xs) k = map_option (h k) (map_of xs k)"
  by (induction xs) auto

lemma check_code_names_relabel:
  "check_code_names wl docco
     (map (\<lambda>(n, r). (n, if map_of docco n = None then r\<lparr>m_labels := f n r\<rparr> else r)) items) st =
   check_code_names wl docco items st"
  by (induction items arbitrary: st) (auto split: option.splits sum.splits)

lemma check_doc_names_relabel:
  assumes "\<forall>n \<in> fst ` set items. map_of docco n \<noteq> None"
  shows "check_doc_names wl
     (map (\<lambda>(n, r). (n, if map_of docco n = None then r\<lparr>m_labels := f n r\<rparr> else r)) code) items acc =
   check_doc_names wl code items acc"
  using assms
proof (induction items arbitrary: acc)
  case Nil
  then show ?case by simp
next
  case (Cons p items)
  obtain nm docs where p: "p = (nm, docs)" by (cases p)
  obtain missing log where acc: "acc = (missing, log)" by (cases acc)
  from Cons.prems p have nm: "map_of docco nm \<noteq> None" by simp
  have m: "map_of (map (\<lambda>(n, r). (n, if map_of docco n = None then r\<lparr>m_labels := f n r\<rparr> else r)) code) nm
           = map_of code nm"
    using nm by (cases "map_of code nm") (auto simp: map_of_map_values)
  from Cons.prems have "\<forall>n \<in> fst ` set items. map_of docco n \<noteq> None" by simp
  then have ih: "\<And>acc. check_doc_names wl
     (map (\<lambda>(n, r). (n, if map_of docco n = None then r\<lparr>m_labels := f n r\<rparr> else r)) code) items acc =
   check_doc_names wl code items acc" by (rule Cons.IH)
  show ?case unfolding p acc by (simp add: m ih split: option.splits)
qed

lemma sorted_items_keys_in_dict: "\<forall>n \<in> fst ` set (sorted_items d). map_of d n \<noteq> None"
  by (metis sorted_items_map_of domIff dom_map_of_conv_image_fst)

subsection \<open>Where duplicate-label reports come from\<close>

lemma check_labels_dup_report:
  "check_labels wl nm docs seen ls st = Inl log \<Longrightarrow> ErrDuplicateLabel n l \<in> set log \<Longrightarrow>
     ErrDuplicateLabel n l \<in> set (out st) \<or> n = nm"
proof (induction ls arbitrary: seen st)
  case Nil
  then show ?case by simp
next
  case (Cons a ls)
  show ?case
  proof (cases "a \<in> set seen \<or> (a \<notin> set docs \<and> nm \<notin> wl)")
    case True
    with Cons.prems show ?thesis by (auto split: if_splits)
  next
    case False
    then obtain st1 where s1: "check_labels wl nm docs (a # seen) ls st1 = Inl log"
      and o1: "out st1 = out st \<or> out st1 = out st @ [WarnNotDocumented nm a docs]"
      using Cons.prems(1) by (auto split: if_splits)
    from Cons.IH[OF s1 Cons.prems(2)] o1 show ?thesis by auto
  qed
qed

lemma check_labels_dup_out:
  "check_labels wl nm docs seen ls st = Inr st' \<Longrightarrow> ErrDuplicateLabel n l \<in> set (out st') \<Longrightarrow>
     ErrDuplicateLabel n l \<in> set (out st)"
proof (cases "nm \<in> wl")
  case True
  assume a: "check_labels wl nm docs seen ls st = Inr st'" and b: "ErrDuplicateLabel n l \<in> set (out st')"
  from check_labels_wl[OF True a] b show ?thesis by auto
next
  case False
  assume a: "check_labels wl nm docs seen ls st = Inr st'" and b: "ErrDuplicateLabel n l \<in> set (out st')"
  from check_labels_not_wl[OF False a] b show ?thesis by auto
qed

lemma check_code_names_dup_out:
  "check_code_names wl docco items st = Inr st' \<Longrightarrow> ErrDuplicateLabel n l \<in> set (out st') \<Longrightarrow>
     ErrDuplicateLabel n l \<in> set (out st)"
proof (induction items arbitrary: st)
  case Nil
  then show ?case by simp
next
  case (Cons p items)
  obtain nm r where p: "p = (nm, r)" by (cases p)
  show ?case
  proof (cases "map_of docco nm")
    case None
    with Cons.prems p have
      "check_code_names wl docco items
         (if nm \<notin> wl then st\<lparr>undocumented := List.insert nm (undocumented st)\<rparr> else st) = Inr st'"
      by simp
    from Cons.IH[OF this Cons.prems(2)] show ?thesis by (simp split: if_splits)
  next
    case (Some docs)
    with Cons.prems p obtain st1 where
      l: "check_labels wl nm docs [] (split_on CHR '','' (m_labels r))
            (if nm \<in> wl then st\<lparr>overdocumented := List.insert nm (overdocumented st)\<rparr> else st)
          = Inr st1"
      and n: "check_code_names wl docco items st1 = Inr st'"
      by (auto split: sum.splits)
    from check_labels_dup_out[OF l Cons.IH[OF n Cons.prems(2)]] show ?thesis
      by (simp split: if_splits)
  qed
qed

lemma check_code_names_dup_report:
  "check_code_names wl docco items st = Inl log \<Longrightarrow> ErrDuplicateLabel n l \<in> set log \<Longrightarrow>
     ErrDuplicateLabel n l \<in> set (out st) \<or> map_of docco n \<noteq> None"
proof (induction items arbitrary: st)
  case Nil
  then show ?case by simp
next
  case (Cons p items)
  obtain nm r where p: "p = (nm, r)" by (cases p)
  show ?case
  proof (cases "map_of docco nm")
    case None
    with Cons.prems p have
      "check_code_names wl docco items
         (if nm \<notin> wl then st\<lparr>undocumented := List.insert nm (undocumented st)\<rparr> else st) = Inl log"
      by simp
    from Cons.IH[OF this Cons.prems(2)] show ?thesis by (auto split: if_splits)
  next
    case (Some docs)
    let ?st0 = "if nm \<in> wl then st\<lparr>overdocumented := List.insert nm (overdocumented st)\<rparr> else st"
    show ?thesis
    proof (cases "check_labels wl nm docs [] (split_on CHR '','' (m_labels r)) ?st0")
      case (Inl log')
      with Cons.prems p Some have "log' = log" by simp
      with check_labels_dup_report[OF Inl, of n l] Cons.prems(2) Some show ?thesis
        by (auto split: if_splits)
    next
      case (Inr st1)
      with Cons.prems p Some have n: "check_code_names wl docco items st1 = Inl log" by simp
      from Cons.IH[OF n Cons.prems(2)] check_labels_dup_out[OF Inr, of n l] show ?thesis
        by (auto split: if_splits)
    qed
  qed
qed

lemma check_doc_names_Inl:
  "check_doc_names wl code items (missing, log) = Inl log' \<Longrightarrow>
     \<exists>n l. log' = log @ [ErrFieldNotInCode n l]"
proof (induction items arbitrary: missing)
  case Nil
  then show ?case by simp
next
  case (Cons p items)
  obtain nm docs where p: "p = (nm, docs)" by (cases p)
  show ?case
  proof (cases "map_of code nm")
    case None
    with Cons.prems p obtain m1 where "check_doc_names wl code items (m1, log) = Inl log'"
      by (auto split: if_splits)
    from Cons.IH[OF this] show ?thesis .
  next
    case (Some r)
    show ?thesis
    proof (cases "check_doc_labels nm (split_on CHR '','' (m_labels r)) docs")
      case None
      with Cons.prems p Some have "check_doc_names wl code items (missing, log) = Inl log'" by simp
      from Cons.IH[OF this] show ?thesis .
    next
      case (Some e)
      from check_doc_labels_Some[OF Some] Some Cons.prems p \<open>map_of code nm = Some r\<close>
      show ?thesis by auto
    qed
  qed
qed

lemma cross_reference_dup_report:
  assumes "ErrDuplicateLabel n l \<in> set (snd (cross_reference wl docco code))"
  shows "map_of docco n \<noteq> None"
proof -
  let ?init = "\<lparr>undocumented = [], overdocumented = [], out = []\<rparr>"
  show ?thesis
  proof (cases "check_code_names wl docco (sorted_items code) ?init")
    case (Inl log)
    with assms have "ErrDuplicateLabel n l \<in> set log" by (simp add: cross_reference_def)
    from check_code_names_dup_report[OF Inl this] show ?thesis by simp
  next
    case (Inr st)
    have no: "ErrDuplicateLabel n l \<notin> set (out st)"
      using check_code_names_dup_out[OF Inr, of n l] by auto
    show ?thesis
    proof (cases "undocumented st \<noteq> [] \<or> overdocumented st \<noteq> []")
      case True
      with assms Inr no show ?thesis by (auto simp: cross_reference_def split: if_splits)
    next
      case False
      show ?thesis
      proof (cases "check_doc_names wl code (sorted_items docco) ([], out st)")
        case (Inl log')
        from check_doc_names_Inl[OF Inl] obtain n' l' where "log' = out st @ [ErrFieldNotInCode n' l']"
          by blast
        with assms Inr False Inl no show ?thesis by (simp add: cross_reference_def)
      next
        case (Inr res)
        obtain missing log where res: "res = (missing, log)" by (cases res)
        from check_doc_names_Inr[OF Inr[unfolded res]] have "log = out st" by simp
        with assms \<open>check_code_names wl docco (sorted_items code) ?init = Inr st\<close> False Inr res no
        show ?thesis by (simp add: cross_reference_def split: if_splits)
      qed
    qed
  qed
qed

lemma check_doc_names_append:
  "check_doc_names wl code (xs @ ys) acc =
     (case check_doc_names wl code xs acc of
        Inl log \<Rightarrow> Inl log
      | Inr acc' \<Rightarrow> check_doc_names wl code ys acc')"
proof (induction xs arbitrary: acc)
  case Nil
  then show ?case by simp
next
  case (Cons p xs)
  obtain nm docs where p: "p = (nm, docs)" by (cases p)
  obtain missing log where acc: "acc = (missing, log)" by (cases acc)
  show ?case unfolding p acc by (simp add: Cons.IH split: option.splits)
qed

text \<open>A label that was seen before ends the label loop, behind the warnings printed so far.\<close>

lemma check_labels_wl_duplicate:
  "nm \<in> wl \<Longrightarrow> distinct pre \<Longrightarrow> set pre \<inter> set seen = {} \<Longrightarrow> l \<in> set pre \<union> set seen \<Longrightarrow>
     check_labels wl nm docs seen (pre @ l # post) st =
       Inl (out st @ map (\<lambda>l. WarnNotDocumented nm l docs) (filter (\<lambda>l. l \<notin> set docs) pre)
              @ [ErrDuplicateLabel nm l])"
proof (induction pre arbitrary: seen st)
  case Nil
  then show ?case by simp
next
  case (Cons a pre)
  from Cons.prems have d: "distinct pre" "set pre \<inter> set (a # seen) = {}" "a \<notin> set seen"
    "l \<in> set pre \<union> set (a # seen)"
    by auto
  show ?case
    using d(3) Cons.prems(1) by (simp add: Cons.IH[OF Cons.prems(1) d(1) d(2) d(4)])
qed


section \<open>Properties of the extraction\<close>

subsection \<open>The normalizer loops\<close>

text \<open>
  Whether a replacement template is well formed does not depend on the text it is put into:
  the substitution of the defines fails for every text or for none.
\<close>

lemma re_sub_template_total:
  "re_sub_template define v t = Inr t' \<Longrightarrow> \<exists>u'. re_sub_template define v u = Inr u'"
  by (auto simp: re_sub_template_def split: option.splits)

lemma substitute_defines_total:
  "substitute_defines defs t = Inr t' \<Longrightarrow> \<exists>u'. substitute_defines defs u = Inr u'"
proof (induction defs arbitrary: t u)
  case Nil
  then show ?case by simp
next
  case (Cons p defs)
  obtain d v where p: "p = (d, v)" by (cases p)
  from Cons.prems p obtain t1 where t1: "re_sub_template d v t = Inr t1"
    and r: "substitute_defines defs t1 = Inr t'"
    by (auto split: sum.splits)
  from re_sub_template_total[OF t1] obtain u1 where u1: "re_sub_template d v u = Inr u1"
    by blast
  from Cons.IH[OF r, of u1] obtain u' where "substitute_defines defs u1 = Inr u'" by blast
  with u1 p show ?case by simp
qed

text \<open>
  A define value with an octal escape is put in with the escape expanded; a value with an
  unknown escape raises, also for a text that does not hold the define.
\<close>

lemma substitute_defines_escapes:
  "substitute_defines [(''X_UNITS'', [dquote] @ ''a'' @ [backslash] @ ''042b'' @ [dquote])]
     ''{ X_UNITS }'' = Inr (''{ '' @ [dquote] @ ''a'' @ [dquote] @ ''b'' @ [dquote] @ '' }'') \<and>
   substitute_defines [(''X_UNITS'', [dquote, backslash] @ ''d'' @ [dquote])] ''{ }'' =
     Inl (BadTemplate ([dquote, backslash] @ ''d'' @ [dquote]))"
  by code_simp

lemma struct_record_total:
  "struct_record defs a = Inr ra \<Longrightarrow> struct_record defs info \<noteq> Inl e"
proof
  assume a: "struct_record defs a = Inr ra" and i: "struct_record defs info = Inl e"
  from a obtain t where "substitute_defines defs a = Inr t"
    by (auto simp: struct_record_def split: sum.splits)
  from substitute_defines_total[OF this, of info] i show False
    by (auto simp: struct_record_def split: sum.splits option.splits)
qed

lemma struct_record_name:
  "struct_record defs info = Inr (Some r) \<Longrightarrow>
     \<exists>text m. substitute_defines defs info = Inr text \<and> re_match pat_struct text = Some m \<and>
       m_name r = group m 1"
  by (auto simp: struct_record_def split: sum.splits option.splits)

lemma struct_records_append:
  "struct_records defs (xs @ ys) ids =
     (case struct_records defs xs ids of Inl e \<Rightarrow> Inl e | Inr ids' \<Rightarrow> struct_records defs ys ids')"
  by (induction xs arbitrary: ids) (auto split: option.splits sum.splits)

lemma struct_records_keys:
  "struct_records defs infos ids = Inr ids' \<Longrightarrow>
     map fst ids' = map fst ids @
       List.map_filter
         (\<lambda>info. case struct_record defs info of Inr (Some r) \<Rightarrow> Some (m_name r) | _ \<Rightarrow> None) infos"
proof (induction infos arbitrary: ids)
  case Nil
  then show ?case by (simp add: List.map_filter_simps)
next
  case (Cons info infos)
  show ?case
  proof (cases "struct_record defs info")
    case (Inl e)
    with Cons.prems show ?thesis by simp
  next
    case (Inr opt)
    show ?thesis
    proof (cases opt)
      case None
      with Inr Cons.prems have "struct_records defs infos ids = Inr ids'" by simp
      from Cons.IH[OF this] Inr None show ?thesis by (simp add: List.map_filter_simps)
    next
      case (Some r)
      with Inr Cons.prems have "struct_records defs infos (ids @ [(m_name r, r)]) = Inr ids'"
        by (simp split: if_splits)
      from Cons.IH[OF this] Inr Some show ?thesis by (simp add: List.map_filter_simps)
    qed
  qed
qed

lemma map_of_None_iff_notin_keys: "map_of xs k = None \<longleftrightarrow> k \<notin> set (map fst xs)"
  by (simp add: map_of_eq_None_iff)

lemma struct_records_distinct:
  "struct_records defs infos ids = Inr ids' \<Longrightarrow> distinct (map fst ids) \<Longrightarrow>
     distinct (map fst ids')"
proof (induction infos arbitrary: ids)
  case Nil
  then show ?case by simp
next
  case (Cons info infos)
  show ?case
  proof (cases "struct_record defs info")
    case (Inl e)
    with Cons.prems show ?thesis by simp
  next
    case (Inr opt)
    show ?thesis
    proof (cases opt)
      case None
      with Inr Cons.prems have "struct_records defs infos ids = Inr ids'" by simp
      from Cons.IH[OF this Cons.prems(2)] show ?thesis .
    next
      case (Some r)
      let ?ids = "ids @ [(m_name r, r)]"
      from Inr Some Cons.prems(1) have n: "map_of ids (m_name r) = None"
        and r: "struct_records defs infos ?ids = Inr ids'"
        by (simp_all split: if_splits)
      from n Cons.prems(2) have "distinct (map fst ?ids)"
        by (simp add: map_of_None_iff_notin_keys)
      from Cons.IH[OF r this] show ?thesis .
    qed
  qed
qed

lemma struct_records_error:
  "struct_records defs infos ids = Inl e \<Longrightarrow>
     (\<exists>info \<in> set infos. struct_record defs info = Inl e) \<or>
     (\<exists>info r. info \<in> set infos \<and> struct_record defs info = Inr (Some r) \<and>
        e = AlreadySeen (m_name r))"
proof (induction infos arbitrary: ids)
  case Nil
  then show ?case by simp
next
  case (Cons info infos)
  show ?case
  proof (cases "struct_record defs info")
    case (Inl e')
    with Cons.prems show ?thesis by simp
  next
    case (Inr opt)
    show ?thesis
    proof (cases opt)
      case None
      with Inr Cons.prems have "struct_records defs infos ids = Inl e" by simp
      from Cons.IH[OF this] show ?thesis by auto
    next
      case (Some r)
      show ?thesis
      proof (cases "map_of ids (m_name r) = None")
        case True
        with Inr Some Cons.prems obtain ids1 where "struct_records defs infos ids1 = Inl e" by auto
        from Cons.IH[OF this] show ?thesis by auto
      next
        case False
        with Inr Some Cons.prems have "e = AlreadySeen (m_name r)" by auto
        with Inr Some show ?thesis by auto
      qed
    qed
  qed
qed

text \<open>Two entries of the list that give records of one name end the loop at line 231.\<close>

lemma struct_records_shared_name:
  assumes a: "struct_record defs a = Inr (Some ra)"
    and b: "struct_record defs b = Inr (Some rb)"
    and n: "m_name ra = m_name rb"
  shows "\<exists>nm. struct_records defs (xs @ a # ys @ b # zs) [] = Inl (AlreadySeen nm)"
proof (cases "struct_records defs (xs @ a # ys @ b # zs) []")
  case (Inl e)
  from struct_records_error[OF Inl] struct_record_total[OF a] Inl show ?thesis by auto
next
  case (Inr r)
  let ?f = "\<lambda>info. case struct_record defs info of Inr (Some r) \<Rightarrow> Some (m_name r) | _ \<Rightarrow> None"
  from struct_records_keys[OF Inr] struct_records_distinct[OF Inr]
  have "distinct (List.map_filter ?f (xs @ a # ys @ b # zs))" by simp
  moreover have "List.map_filter ?f (xs @ a # ys @ b # zs) =
      List.map_filter ?f xs @ m_name ra # List.map_filter ?f ys @ m_name rb # List.map_filter ?f zs"
    using a b by (simp add: List.map_filter_def)
  ultimately show ?thesis using n by simp
qed

lemma merge_results_keys:
  "merge_results results ids = Inr ids' \<Longrightarrow> map fst ids' = map fst ids @ map fst results"
proof (induction results arbitrary: ids)
  case Nil
  then show ?case by simp
next
  case (Cons p results)
  obtain nm lbls where p: "p = (nm, lbls)" by (cases p)
  from Cons.prems p obtain ids1 where "merge_results results ids1 = Inr ids'"
    and "map fst ids1 = map fst ids @ [nm]"
    by (auto split: if_splits)
  with Cons.IH[of ids1] p show ?case by simp
qed

lemma merge_results_distinct:
  "merge_results results ids = Inr ids' \<Longrightarrow> distinct (map fst ids) \<Longrightarrow> distinct (map fst ids')"
proof (induction results arbitrary: ids)
  case Nil
  then show ?case by simp
next
  case (Cons p results)
  obtain nm lbls where p: "p = (nm, lbls)" by (cases p)
  let ?ids = "ids @ [(nm, \<lparr>m_name = nm, m_format = None, m_labels = lbls,
                            m_units = None, m_multipliers = None\<rparr>)]"
  from Cons.prems(1) p have n: "map_of ids nm = None" and r: "merge_results results ?ids = Inr ids'"
    by (simp_all split: if_splits)
  from n Cons.prems(2) have "distinct (map fst ?ids)" by (simp add: map_of_None_iff_notin_keys)
  from Cons.IH[OF r this] show ?case .
qed

lemma merge_results_error:
  "merge_results results ids = Inl e \<Longrightarrow> \<exists>nm \<in> fst ` set results. e = AlreadyHaveId nm"
proof (induction results arbitrary: ids)
  case Nil
  then show ?case by simp
next
  case (Cons p results)
  obtain nm lbls where p: "p = (nm, lbls)" by (cases p)
  show ?case
  proof (cases "map_of ids nm = None")
    case True
    with Cons.prems p obtain ids1 where "merge_results results ids1 = Inl e" by auto
    from Cons.IH[OF this] show ?thesis by auto
  next
    case False
    with Cons.prems p show ?thesis by auto
  qed
qed

lemma call_result_total:
  "substitute_defines defs stmt = Inr text \<Longrightarrow>
     (\<exists>result. call_result defs s = Inr result) \<or>
     (\<exists>t. substitute_defines defs s = Inr t \<and> re_match pat_call_logger t = None \<and>
        re_match pat_call_ap_logger t = None \<and> call_result defs s = Inl (DidNotMatch t))"
proof -
  assume "substitute_defines defs stmt = Inr text"
  from substitute_defines_total[OF this, of s] obtain t where "substitute_defines defs s = Inr t"
    by blast
  then show ?thesis by (auto simp: call_result_def split: option.splits)
qed

lemma call_results_no_match:
  assumes "stmt \<in> set stmts"
    and "substitute_defines defs stmt = Inr text"
    and "re_match pat_call_logger text = None"
    and "re_match pat_call_ap_logger text = None"
  shows "\<exists>s \<in> set stmts. \<exists>t. substitute_defines defs s = Inr t \<and>
           re_match pat_call_logger t = None \<and> re_match pat_call_ap_logger t = None \<and>
           call_results defs stmts results = Inl (DidNotMatch t)"
  using assms(1)
proof (induction stmts arbitrary: results)
  case Nil
  then show ?case by simp
next
  case (Cons a stmts)
  from call_result_total[OF assms(2), of a] show ?case
  proof
    assume "\<exists>result. call_result defs a = Inr result"
    then obtain result where r: "call_result defs a = Inr result" by blast
    with assms(2,3,4) have "a \<noteq> stmt" by (auto simp: call_result_def)
    with Cons.prems have "stmt \<in> set stmts" by auto
    from Cons.IH[OF this, of "results @ [result]"] r show ?thesis by auto
  next
    assume "\<exists>t. substitute_defines defs a = Inr t \<and> re_match pat_call_logger t = None \<and>
        re_match pat_call_ap_logger t = None \<and> call_result defs a = Inl (DidNotMatch t)"
    then show ?thesis by auto
  qed
qed

subsection \<open>The struct-table scans\<close>






section \<open>Claims about the cross-reference validator\<close>

text \<open>
  Claim C1, as amended. In a run whose code-name loop ends without a fatal per-label error,
  the three finding lists are the undocumented, overdocumented and missing-in-code names in
  sorted order, and a non-empty one makes the verdict a failure. They are not reported
  together: a non-empty undocumented list is printed and the function returns at once
  (lines 455-459); the overdocumented list is printed only when the undocumented one is
  empty (lines 461-465); the missing list is computed and printed only when both are empty
  (lines 467-483).
\<close>

theorem findings_reported_first_nonempty:
  assumes "check_code_names wl docco (sorted_items code)
             \<lparr>undocumented = [], overdocumented = [], out = []\<rparr> = Inr st"
  shows "(let und = filter (\<lambda>n. map_of docco n = None \<and> n \<notin> wl) (map fst (sorted_items code));
              ovd = filter (\<lambda>n. n \<in> wl \<and>
                       (case map_of docco n of None \<Rightarrow> False
                        | Some docs \<Rightarrow>
                            (case map_of code n of None \<Rightarrow> False
                             | Some r \<Rightarrow> set (split_on CHR '','' (m_labels r)) \<subseteq> set docs)))
                    (map fst (sorted_items code));
              mis = filter (\<lambda>n. map_of code n = None \<and> n \<notin> wl) (map fst (sorted_items docco))
          in sort (undocumented st) = und \<and> sort (overdocumented st) = ovd \<and>
             (und \<noteq> [] \<longrightarrow>
                cross_reference wl docco code =
                  (False, out st @ ErrUndocumentedFound # map Item und)) \<and>
             (und = [] \<and> ovd \<noteq> [] \<longrightarrow>
                cross_reference wl docco code =
                  (False, out st @ ErrOverdocumentedFound # map Item ovd)) \<and>
             (und = [] \<and> ovd = [] \<longrightarrow>
                (\<forall>missing log.
                   check_doc_names wl code (sorted_items docco) ([], out st) = Inr (missing, log) \<longrightarrow>
                     missing = mis \<and> log = out st \<and>
                     cross_reference wl docco code =
                       (if mis \<noteq> [] then (False, out st @ [ErrMissingInCode mis])
                        else (True, out st @ [Success])))))"
proof -
  let ?init = "\<lparr>undocumented = [], overdocumented = [], out = []\<rparr>"
  let ?PU = "\<lambda>n. map_of docco n = None \<and> n \<notin> wl"
  let ?PO = "\<lambda>n. n \<in> wl \<and>
                       (case map_of docco n of None \<Rightarrow> False
                        | Some docs \<Rightarrow>
                            (case map_of code n of None \<Rightarrow> False
                             | Some r \<Rightarrow> set (split_on CHR '','' (m_labels r)) \<subseteq> set docs))"
  have u: "sort (undocumented st) = filter ?PU (map fst (sorted_items code))"
  proof (rule sort_eq_filter_keys)
    show "distinct (undocumented st)"
      using check_code_names_undocumented_distinct[OF assms] by simp
    show "set (undocumented st) = {n \<in> fst ` set code. ?PU n}"
      using check_code_names_undocumented[OF assms] sorted_items_keys[of code] by simp
  qed
  have o: "sort (overdocumented st) = filter ?PO (map fst (sorted_items code))"
  proof (rule sort_eq_filter_keys)
    show "distinct (overdocumented st)"
      using check_code_names_overdocumented_distinct[OF assms] by simp
    have "set (overdocumented st) =
       {n. \<exists>r docs. (n, r) \<in> set (sorted_items code) \<and> n \<in> wl \<and> map_of docco n = Some docs \<and>
              set (split_on CHR '','' (m_labels r)) \<subseteq> set docs}"
      using check_code_names_overdocumented[OF assms sorted_items_distinct] by simp
    also have "\<dots> = {n \<in> fst ` set code. ?PO n}"
      by (auto simp: sorted_items_mem split: option.splits dest: map_of_SomeD
               intro: rev_image_eqI)
    finally show "set (overdocumented st) = {n \<in> fst ` set code. ?PO n}" .
  qed
  have ue: "undocumented st = [] \<longleftrightarrow> sort (undocumented st) = []"
    by (metis length_sort length_0_conv)
  have oe: "overdocumented st = [] \<longleftrightarrow> sort (overdocumented st) = []"
    by (metis length_sort length_0_conv)
  show ?thesis
    unfolding Let_def
  proof (intro conjI impI allI)
    show "sort (undocumented st) = filter ?PU (map fst (sorted_items code))" by (rule u)
    show "sort (overdocumented st) = filter ?PO (map fst (sorted_items code))" by (rule o)
  next
    assume "filter ?PU (map fst (sorted_items code)) \<noteq> []"
    with u ue have "undocumented st \<noteq> []" by simp
    then show "cross_reference wl docco code =
       (False, out st @ ErrUndocumentedFound # map Item (filter ?PU (map fst (sorted_items code))))"
      using assms u by (simp add: cross_reference_def)
  next
    assume "filter ?PU (map fst (sorted_items code)) = [] \<and> filter ?PO (map fst (sorted_items code)) \<noteq> []"
    with u ue o oe have "undocumented st = []" "overdocumented st \<noteq> []" by simp_all
    then show "cross_reference wl docco code =
       (False, out st @ ErrOverdocumentedFound # map Item (filter ?PO (map fst (sorted_items code))))"
      using assms o by (simp add: cross_reference_def)
  next
    fix missing log
    assume e: "filter ?PU (map fst (sorted_items code)) = [] \<and> filter ?PO (map fst (sorted_items code)) = []"
      and d: "check_doc_names wl code (sorted_items docco) ([], out st) = Inr (missing, log)"
    from e u ue o oe have em: "undocumented st = []" "overdocumented st = []" by simp_all
    from check_doc_names_Inr[OF d]
    have m: "missing = filter (\<lambda>n. map_of code n = None \<and> n \<notin> wl) (map fst (sorted_items docco))"
      and l: "log = out st" by simp_all
    show "missing = filter (\<lambda>n. map_of code n = None \<and> n \<notin> wl) (map fst (sorted_items docco))"
      by (rule m)
    show "log = out st" by (rule l)
    show "cross_reference wl docco code =
       (if filter (\<lambda>n. map_of code n = None \<and> n \<notin> wl) (map fst (sorted_items docco)) \<noteq> []
        then (False, out st @ [ErrMissingInCode
               (filter (\<lambda>n. map_of code n = None \<and> n \<notin> wl) (map fst (sorted_items docco)))])
        else (True, out st @ [Success]))"
      using assms em d m l by (simp add: cross_reference_def)
  qed
qed

text \<open>
  The theorem at a Copter run: \<^verbatim>\<open>ATT\<close> is documented with exactly its code labels, and the
  documentation also describes \<^verbatim>\<open>OLD\<close>, which no code declares. Both loops end without a
  fatal error and the only report is the missing-in-code one.
\<close>

theorem findings_reported_first_nonempty_witness:
  "check_code_names (get_whitelist ''Copter'')
       [(''OLD'', [''X'']), (''ATT'', [''TimeUS'', ''Roll''])]
       (sorted_items [(''ATT'', \<lparr>m_name = ''ATT'', m_format = None, m_labels = ''TimeUS,Roll'',
                        m_units = None, m_multipliers = None\<rparr>)])
       \<lparr>undocumented = [], overdocumented = [], out = []\<rparr>
     = Inr \<lparr>undocumented = [], overdocumented = [], out = []\<rparr> \<and>
   check_doc_names (get_whitelist ''Copter'')
       [(''ATT'', \<lparr>m_name = ''ATT'', m_format = None, m_labels = ''TimeUS,Roll'',
                        m_units = None, m_multipliers = None\<rparr>)]
       (sorted_items [(''OLD'', [''X'']), (''ATT'', [''TimeUS'', ''Roll''])]) ([], [])
     = Inr ([''OLD''], []) \<and>
   cross_reference (get_whitelist ''Copter'')
       [(''OLD'', [''X'']), (''ATT'', [''TimeUS'', ''Roll''])]
       [(''ATT'', \<lparr>m_name = ''ATT'', m_format = None, m_labels = ''TimeUS,Roll'',
                        m_units = None, m_multipliers = None\<rparr>)]
     = (False, [ErrMissingInCode [''OLD'']])"
proof -
  let ?wl = "get_whitelist ''Copter''"
  let ?docco = "[(''OLD'', [''X'']), (''ATT'', [''TimeUS'', ''Roll''])]"
  let ?code = "[(''ATT'', \<lparr>m_name = ''ATT'', m_format = None, m_labels = ''TimeUS,Roll'',
                        m_units = None, m_multipliers = None\<rparr>)]"
  let ?st = "\<lparr>undocumented = [], overdocumented = [], out = []\<rparr>"
  have h: "check_code_names ?wl ?docco (sorted_items ?code) ?st = Inr ?st"
    by (simp add: sorted_items_def get_whitelist_def vehicle_dirname_def)
  have d: "check_doc_names ?wl ?code (sorted_items ?docco) ([], out ?st) = Inr ([''OLD''], [])"
    by (simp add: sorted_items_def get_whitelist_def vehicle_dirname_def)
  have k: "map fst (sorted_items ?code) = [''ATT'']" "map fst (sorted_items ?docco) = [''ATT'', ''OLD'']"
    by (simp_all add: sorted_items_def)
  from findings_reported_first_nonempty[OF h] d
  have "cross_reference ?wl ?docco ?code = (False, [ErrMissingInCode [''OLD'']])"
    unfolding Let_def k by (simp add: get_whitelist_def vehicle_dirname_def)
  with h d show ?thesis by simp
qed

text \<open>
  Claim C1 as stated fails: with one undocumented code message \<^verbatim>\<open>NEW\<close> and one documented
  message \<^verbatim>\<open>OLD\<close> absent from the code, no fatal error occurs and the missing-in-code list
  is non-empty, yet the run returns after printing the undocumented names alone.
\<close>

theorem findings_not_reported_together_counterexample:
  "check_code_names {} [(''OLD'', [''X''])]
       (sorted_items [(''NEW'', \<lparr>m_name = ''NEW'', m_format = None, m_labels = ''TimeUS'',
                        m_units = None, m_multipliers = None\<rparr>)])
       \<lparr>undocumented = [], overdocumented = [], out = []\<rparr>
     = Inr \<lparr>undocumented = [''NEW''], overdocumented = [], out = []\<rparr> \<and>
   filter (\<lambda>n. map_of [(''NEW'', \<lparr>m_name = ''NEW'', m_format = None, m_labels = ''TimeUS'',
                        m_units = None, m_multipliers = None\<rparr>)] n = None \<and> n \<notin> {})
      (map fst (sorted_items [(''OLD'', [''X''])])) = [''OLD''] \<and>
   cross_reference {} [(''OLD'', [''X''])]
       [(''NEW'', \<lparr>m_name = ''NEW'', m_format = None, m_labels = ''TimeUS'',
                        m_units = None, m_multipliers = None\<rparr>)]
     = (False, [ErrUndocumentedFound, Item ''NEW''])"
  by (simp add: sorted_items_def cross_reference_def)

text \<open>
  Claim C2, as amended. For a whitelisted name present on both sides, a code label absent
  from the documented labels is only a warning. When the code labels are pairwise
  different, the name loop goes on to the remaining names with one warning per such label,
  and the name leaves the overdocumented set (it is added to it when every code label is
  documented). When a code label is repeated, the run ends at the first repetition with the
  duplicate-label error, behind the warnings for the labels before it. A run over such a
  message alone, its code labels pairwise different and every documented label among them,
  passes. The other direction is not downgraded: when the run reaches a name in the
  documentation loop (the name loop over the code has ended without a failure, no name is
  left undocumented or overdocumented, and the documented names before it have passed), a
  documented label absent from the code labels ends the run with a failure (lines 476-479),
  whitelisted or not.
\<close>

theorem whitelisted_code_label_mismatch_is_warning:
  "(nm \<in> wl \<and> map_of docco nm = Some docs \<longrightarrow>
      (distinct (split_on CHR '','' (m_labels r)) \<longrightarrow>
         check_code_names wl docco ((nm, r) # rest) st =
           check_code_names wl docco rest
             (st\<lparr>out := out st @ map (\<lambda>l. WarnNotDocumented nm l docs)
                                  (filter (\<lambda>l. l \<notin> set docs) (split_on CHR '','' (m_labels r))),
                  overdocumented :=
                    (if set (split_on CHR '','' (m_labels r)) \<subseteq> set docs
                     then List.insert nm (overdocumented st)
                     else removeAll nm (overdocumented st))\<rparr>)) \<and>
      (\<not> distinct (split_on CHR '','' (m_labels r)) \<longrightarrow>
         (\<exists>pre l post. split_on CHR '','' (m_labels r) = pre @ l # post \<and> distinct pre \<and>
            l \<in> set pre \<and>
            check_code_names wl docco ((nm, r) # rest) st =
              Inl (out st @ map (\<lambda>l. WarnNotDocumented nm l docs) (filter (\<lambda>l. l \<notin> set docs) pre)
                     @ [ErrDuplicateLabel nm l]))) \<and>
      (distinct (split_on CHR '','' (m_labels r)) \<and>
       \<not> set (split_on CHR '','' (m_labels r)) \<subseteq> set docs \<and>
       set docs \<subseteq> set (split_on CHR '','' (m_labels r)) \<longrightarrow>
         cross_reference wl [(nm, docs)] [(nm, r)] =
           (True, map (\<lambda>l. WarnNotDocumented nm l docs)
                    (filter (\<lambda>l. l \<notin> set docs) (split_on CHR '','' (m_labels r))) @ [Success])))
   \<and> (check_code_names wl docco' (sorted_items code)
          \<lparr>undocumented = [], overdocumented = [], out = []\<rparr> = Inr st' \<and>
        undocumented st' = [] \<and> overdocumented st' = [] \<and>
        sorted_items docco' = before @ (nm', docs') # after \<and>
        check_doc_names wl code before ([], out st') = Inr acc \<and>
        map_of code nm' = Some r' \<and>
        \<not> set docs' \<subseteq> set (split_on CHR '','' (m_labels r')) \<longrightarrow>
        (\<exists>l \<in> set docs'. l \<notin> set (split_on CHR '','' (m_labels r')) \<and>
           cross_reference wl docco' code = (False, out st' @ [ErrFieldNotInCode nm' l])))"
proof (intro conjI impI)
  let ?ls = "split_on CHR '','' (m_labels r)"
  let ?warn = "\<lambda>ls. map (\<lambda>l. WarnNotDocumented nm l docs) (filter (\<lambda>l. l \<notin> set docs) ls)"
  {
    assume a: "nm \<in> wl \<and> map_of docco nm = Some docs" and d: "distinct ?ls"
    have l: "\<And>st. check_labels wl nm docs [] ?ls st =
         Inr (st\<lparr>out := out st @ ?warn ?ls,
                overdocumented := (if set ?ls \<subseteq> set docs then overdocumented st
                                   else removeAll nm (overdocumented st))\<rparr>)"
      using check_labels_wl_distinct[of nm wl ?ls "[]"] a d by simp
    show "check_code_names wl docco ((nm, r) # rest) st =
             check_code_names wl docco rest
               (st\<lparr>out := out st @ ?warn ?ls,
                    overdocumented :=
                      (if set ?ls \<subseteq> set docs then List.insert nm (overdocumented st)
                       else removeAll nm (overdocumented st))\<rparr>)"
      using a by (simp add: l List.insert_def)
  }
  {
    assume a: "nm \<in> wl \<and> map_of docco nm = Some docs" and d: "\<not> distinct ?ls"
    from d obtain pre l post where p: "l \<in> set pre" "distinct pre" "?ls = pre @ l # post"
      unfolding not_distinct_conv_prefix by blast
    have "\<And>st. check_labels wl nm docs [] ?ls st =
        Inl (out st @ ?warn pre @ [ErrDuplicateLabel nm l])"
      unfolding p(3) using check_labels_wl_duplicate[of nm wl pre "[]" l] a p(1,2) by simp
    with a have "check_code_names wl docco ((nm, r) # rest) st =
        Inl (out st @ ?warn pre @ [ErrDuplicateLabel nm l])"
      by simp
    with p show "\<exists>pre l post. ?ls = pre @ l # post \<and> distinct pre \<and> l \<in> set pre \<and>
            check_code_names wl docco ((nm, r) # rest) st =
              Inl (out st @ ?warn pre @ [ErrDuplicateLabel nm l])"
      by blast
  }
  {
    assume a: "nm \<in> wl \<and> map_of docco nm = Some docs"
      and m: "distinct ?ls \<and> \<not> set ?ls \<subseteq> set docs \<and> set docs \<subseteq> set ?ls"
    have l: "\<And>st. check_labels wl nm docs [] ?ls st =
         Inr (st\<lparr>out := out st @ ?warn ?ls,
                overdocumented := (if set ?ls \<subseteq> set docs then overdocumented st
                                   else removeAll nm (overdocumented st))\<rparr>)"
      using check_labels_wl_distinct[of nm wl ?ls "[]"] a m by simp
    have si: "sorted_items [(nm, r)] = [(nm, r)]" "sorted_items [(nm, docs)] = [(nm, docs)]"
      by (simp_all add: sorted_items_def)
    from m have "check_doc_labels nm ?ls docs = None" by (simp add: check_doc_labels_None)
    then show "cross_reference wl [(nm, docs)] [(nm, r)] = (True, ?warn ?ls @ [Success])"
      using a m by (simp add: cross_reference_def si l List.insert_def)
  }
  {
    assume h: "check_code_names wl docco' (sorted_items code)
          \<lparr>undocumented = [], overdocumented = [], out = []\<rparr> = Inr st' \<and>
        undocumented st' = [] \<and> overdocumented st' = [] \<and>
        sorted_items docco' = before @ (nm', docs') # after \<and>
        check_doc_names wl code before ([], out st') = Inr acc \<and>
        map_of code nm' = Some r' \<and>
        \<not> set docs' \<subseteq> set (split_on CHR '','' (m_labels r'))"
    obtain missing log where acc: "acc = (missing, log)" by (cases acc)
    from h acc check_doc_names_Inr[of wl code before "[]" "out st'" missing log]
    have log: "log = out st'" by simp
    from h check_doc_names_missing_field[of code nm' r' docs' wl after missing log]
    obtain l where l: "l \<in> set docs'" "l \<notin> set (split_on CHR '','' (m_labels r'))"
      "check_doc_names wl code ((nm', docs') # after) (missing, log) =
         Inl (log @ [ErrFieldNotInCode nm' l])"
      by blast
    from h acc l(3) have "check_doc_names wl code (sorted_items docco') ([], out st') =
        Inl (log @ [ErrFieldNotInCode nm' l])"
      by (simp add: check_doc_names_append)
    with h log have "cross_reference wl docco' code = (False, out st' @ [ErrFieldNotInCode nm' l])"
      by (simp add: cross_reference_def)
    with l(1,2) show "\<exists>l \<in> set docs'. l \<notin> set (split_on CHR '','' (m_labels r')) \<and>
           cross_reference wl docco' code = (False, out st' @ [ErrFieldNotInCode nm' l])"
      by blast
  }
qed

text \<open>
  The theorem for the Copter whitelist, which holds \<^verbatim>\<open>TECS\<close>. The code label \<^verbatim>\<open>dhdem\<close> is not
  documented: a warning. The code labels \<^verbatim>\<open>TimeUS,TimeUS,dh\<close> repeat a label: the duplicate
  error. The code labels \<^verbatim>\<open>TimeUS,h,dh\<close> against the documented \<^verbatim>\<open>TimeUS\<close> and \<^verbatim>\<open>h\<close>: the run
  passes with a warning. The documented label \<^verbatim>\<open>dh\<close> that the code, with \<^verbatim>\<open>dhdem\<close> in its
  place, lacks: the run fails in the documentation loop.
\<close>

theorem whitelisted_code_label_mismatch_is_warning_witness:
  "''TECS'' \<in> get_whitelist ''Copter'' \<and>
   check_code_names (get_whitelist ''Copter'') [(''TECS'', [''TimeUS'', ''h'', ''dh''])]
     [(''TECS'', \<lparr>m_name = ''TECS'', m_format = None, m_labels = ''TimeUS,h,dhdem'',
                  m_units = None, m_multipliers = None\<rparr>)]
     \<lparr>undocumented = [], overdocumented = [], out = []\<rparr> =
     Inr \<lparr>undocumented = [], overdocumented = [],
          out = [WarnNotDocumented ''TECS'' ''dhdem'' [''TimeUS'', ''h'', ''dh'']]\<rparr> \<and>
   (\<exists>pre l post. [''TimeUS'', ''TimeUS'', ''dh''] = pre @ l # post \<and> distinct pre \<and> l \<in> set pre \<and>
      check_code_names (get_whitelist ''Copter'') [(''TECS'', [''TimeUS'', ''h'', ''dh''])]
        [(''TECS'', \<lparr>m_name = ''TECS'', m_format = None, m_labels = ''TimeUS,TimeUS,dh'',
                     m_units = None, m_multipliers = None\<rparr>)]
        \<lparr>undocumented = [], overdocumented = [], out = []\<rparr> =
        Inl (map (\<lambda>l. WarnNotDocumented ''TECS'' l [''TimeUS'', ''h'', ''dh''])
               (filter (\<lambda>l. l \<notin> set [''TimeUS'', ''h'', ''dh'']) pre)
             @ [ErrDuplicateLabel ''TECS'' l])) \<and>
   cross_reference (get_whitelist ''Copter'') [(''TECS'', [''TimeUS'', ''h''])]
     [(''TECS'', \<lparr>m_name = ''TECS'', m_format = None, m_labels = ''TimeUS,h,dh'',
                  m_units = None, m_multipliers = None\<rparr>)] =
     (True, [WarnNotDocumented ''TECS'' ''dh'' [''TimeUS'', ''h''], Success]) \<and>
   (\<exists>l \<in> set [''TimeUS'', ''h'', ''dh'']. l \<notin> set [''TimeUS'', ''h'', ''dhdem''] \<and>
      cross_reference (get_whitelist ''Copter'') [(''TECS'', [''TimeUS'', ''h'', ''dh''])]
        [(''TECS'', \<lparr>m_name = ''TECS'', m_format = None, m_labels = ''TimeUS,h,dhdem'',
                     m_units = None, m_multipliers = None\<rparr>)] =
        (False, [WarnNotDocumented ''TECS'' ''dhdem'' [''TimeUS'', ''h'', ''dh''],
                 ErrFieldNotInCode ''TECS'' l]))"
proof -
  let ?wl = "get_whitelist ''Copter''"
  let ?init = "\<lparr>undocumented = [], overdocumented = [], out = []\<rparr>"
  let ?docs = "[''TimeUS'', ''h'', ''dh'']"
  let ?ra = "\<lparr>m_name = ''TECS'', m_format = None, m_labels = ''TimeUS,h,dhdem'',
                  m_units = None, m_multipliers = None\<rparr>"
  let ?rb = "\<lparr>m_name = ''TECS'', m_format = None, m_labels = ''TimeUS,TimeUS,dh'',
                  m_units = None, m_multipliers = None\<rparr>"
  let ?rc = "\<lparr>m_name = ''TECS'', m_format = None, m_labels = ''TimeUS,h,dh'',
                  m_units = None, m_multipliers = None\<rparr>"
  let ?sta = "\<lparr>undocumented = [], overdocumented = [],
          out = [WarnNotDocumented ''TECS'' ''dhdem'' ?docs]\<rparr>"
  have a: "''TECS'' \<in> ?wl" by (simp add: get_whitelist_def vehicle_dirname_def)
  have s: "split_on CHR '','' ''TimeUS,h,dhdem'' = [''TimeUS'', ''h'', ''dhdem'']"
          "split_on CHR '','' ''TimeUS,TimeUS,dh'' = [''TimeUS'', ''TimeUS'', ''dh'']"
          "split_on CHR '','' ''TimeUS,h,dh'' = [''TimeUS'', ''h'', ''dh'']" by simp_all
  have si: "sorted_items [(''TECS'', ?ra)] = [(''TECS'', ?ra)]"
           "sorted_items [(''TECS'', ?docs)] = [] @ (''TECS'', ?docs) # []"
    by (simp_all add: sorted_items_def)
  from whitelisted_code_label_mismatch_is_warning
         [where nm = "''TECS''" and wl = ?wl and docco = "[(''TECS'', ?docs)]" and docs = ?docs
            and r = ?ra and rest = "[]" and st = ?init]
       a
  have 1: "check_code_names ?wl [(''TECS'', ?docs)] [(''TECS'', ?ra)] ?init = Inr ?sta"
    by (simp add: s)
  from whitelisted_code_label_mismatch_is_warning
         [where nm = "''TECS''" and wl = ?wl and docco = "[(''TECS'', ?docs)]" and docs = ?docs
            and r = ?rb and rest = "[]" and st = ?init]
       a
  have 2: "\<exists>pre l post. [''TimeUS'', ''TimeUS'', ''dh''] = pre @ l # post \<and> distinct pre \<and>
      l \<in> set pre \<and>
      check_code_names ?wl [(''TECS'', ?docs)] [(''TECS'', ?rb)] ?init =
        Inl (map (\<lambda>l. WarnNotDocumented ''TECS'' l ?docs) (filter (\<lambda>l. l \<notin> set ?docs) pre)
             @ [ErrDuplicateLabel ''TECS'' l])"
    by (simp add: s)
  from whitelisted_code_label_mismatch_is_warning
         [where nm = "''TECS''" and wl = ?wl and docco = "[(''TECS'', [''TimeUS'', ''h''])]"
            and docs = "[''TimeUS'', ''h'']" and r = ?rc]
       a
  have 3: "cross_reference ?wl [(''TECS'', [''TimeUS'', ''h''])] [(''TECS'', ?rc)] =
     (True, [WarnNotDocumented ''TECS'' ''dh'' [''TimeUS'', ''h''], Success])"
    by (simp add: s)
  have h: "check_code_names ?wl [(''TECS'', ?docs)] (sorted_items [(''TECS'', ?ra)]) ?init = Inr ?sta \<and>
        undocumented ?sta = [] \<and> overdocumented ?sta = [] \<and>
        sorted_items [(''TECS'', ?docs)] = [] @ (''TECS'', ?docs) # [] \<and>
        check_doc_names ?wl [(''TECS'', ?ra)] [] ([], out ?sta) = Inr ([], out ?sta) \<and>
        map_of [(''TECS'', ?ra)] ''TECS'' = Some ?ra \<and>
        \<not> set ?docs \<subseteq> set (split_on CHR '','' (m_labels ?ra))"
    using 1 by (simp add: si s)
  from whitelisted_code_label_mismatch_is_warning
         [where wl = ?wl and docco' = "[(''TECS'', ?docs)]" and code = "[(''TECS'', ?ra)]"
            and st' = ?sta and before = "[]" and nm' = "''TECS''" and docs' = ?docs
            and after = "[]" and acc = "([], out ?sta)" and r' = ?ra]
       h
  have 4: "\<exists>l \<in> set ?docs. l \<notin> set [''TimeUS'', ''h'', ''dhdem''] \<and>
      cross_reference ?wl [(''TECS'', ?docs)] [(''TECS'', ?ra)] =
        (False, [WarnNotDocumented ''TECS'' ''dhdem'' ?docs, ErrFieldNotInCode ''TECS'' l])"
    by (simp add: s)
  from a 1 2 3 4 show ?thesis by blast
qed

text \<open>
  Claim C2 as stated fails in the documentation-to-code direction: \<^verbatim>\<open>TECS\<close> is whitelisted
  and present on both sides, its code label \<^verbatim>\<open>dhdem\<close> is undocumented (a warning, and the
  name leaves the overdocumented set), and its documented label \<^verbatim>\<open>dh\<close> is not a code label,
  which fails the run.
\<close>

theorem whitelisted_doc_label_mismatch_counterexample:
  "''TECS'' \<in> get_whitelist ''Copter'' \<and>
   cross_reference (get_whitelist ''Copter'') [(''TECS'', [''TimeUS'', ''h'', ''dh''])]
     [(''TECS'', \<lparr>m_name = ''TECS'', m_format = None, m_labels = ''TimeUS,h,dhdem'',
                  m_units = None, m_multipliers = None\<rparr>)] =
     (False, [WarnNotDocumented ''TECS'' ''dhdem'' [''TimeUS'', ''h'', ''dh''],
              ErrFieldNotInCode ''TECS'' ''dh''])"
  by (simp add: cross_reference_def sorted_items_def get_whitelist_def vehicle_dirname_def)

text \<open>
  Claim C5, as amended. When the name loop reaches a code name that is documented and not
  whitelisted, and the labels before its first undocumented label are pairwise different,
  that label ends the run at once: the verdict is a failure, the last line printed names the
  message and the label, and the result is the same whatever names would have followed.
\<close>

theorem first_undocumented_label_is_fatal:
  assumes "sorted_items code = before @ (nm, r) # rest"
    and "check_code_names wl docco before \<lparr>undocumented = [], overdocumented = [], out = []\<rparr> = Inr st"
    and "map_of docco nm = Some docs" and "nm \<notin> wl"
    and "split_on CHR '','' (m_labels r) = pre @ l # post"
    and "set pre \<subseteq> set docs" and "distinct pre" and "l \<notin> set docs"
  shows "(\<forall>others. check_code_names wl docco ((nm, r) # others) st =
                     Inl (out st @ [ErrNotDocumented nm l docs])) \<and>
         cross_reference wl docco code = (False, out st @ [ErrNotDocumented nm l docs])"
proof -
  have l: "check_labels wl nm docs [] (pre @ l # post) st = Inl (out st @ [ErrNotDocumented nm l docs])"
    using assms(4,6,7,8) by (intro check_labels_first_missing) auto
  have step: "\<And>others. check_code_names wl docco ((nm, r) # others) st =
                     Inl (out st @ [ErrNotDocumented nm l docs])"
    using assms(3,4,5) l by simp
  have "check_code_names wl docco (sorted_items code) \<lparr>undocumented = [], overdocumented = [], out = []\<rparr>
          = Inl (out st @ [ErrNotDocumented nm l docs])"
    unfolding assms(1) check_code_names_append using assms(2) step by simp
  then show ?thesis using step by (simp add: cross_reference_def)
qed

text \<open>
  The theorem at a run with three code messages: \<^verbatim>\<open>ATT\<close> is scanned without a finding,
  \<^verbatim>\<open>BAT\<close> fails at its label \<^verbatim>\<open>Volt\<close>, and \<^verbatim>\<open>CTUN\<close>, whose label \<^verbatim>\<open>Bogus\<close> is undocumented
  too, is never reported.
\<close>

theorem first_undocumented_label_is_fatal_witness:
  "sorted_items
     [(''BAT'', \<lparr>m_name = ''BAT'', m_format = None, m_labels = ''TimeUS,Volt,Curr'',
                 m_units = None, m_multipliers = None\<rparr>),
      (''ATT'', \<lparr>m_name = ''ATT'', m_format = None, m_labels = ''TimeUS,Roll'',
                 m_units = None, m_multipliers = None\<rparr>),
      (''CTUN'', \<lparr>m_name = ''CTUN'', m_format = None, m_labels = ''TimeUS,Bogus'',
                 m_units = None, m_multipliers = None\<rparr>)] =
     [(''ATT'', \<lparr>m_name = ''ATT'', m_format = None, m_labels = ''TimeUS,Roll'',
                 m_units = None, m_multipliers = None\<rparr>)] @
     (''BAT'', \<lparr>m_name = ''BAT'', m_format = None, m_labels = ''TimeUS,Volt,Curr'',
                 m_units = None, m_multipliers = None\<rparr>) #
     [(''CTUN'', \<lparr>m_name = ''CTUN'', m_format = None, m_labels = ''TimeUS,Bogus'',
                 m_units = None, m_multipliers = None\<rparr>)] \<and>
   split_on CHR '','' ''TimeUS,Volt,Curr'' = [''TimeUS''] @ ''Volt'' # [''Curr''] \<and>
   cross_reference {}
     [(''ATT'', [''TimeUS'', ''Roll'']), (''BAT'', [''TimeUS'', ''Curr'']), (''CTUN'', [''TimeUS''])]
     [(''BAT'', \<lparr>m_name = ''BAT'', m_format = None, m_labels = ''TimeUS,Volt,Curr'',
                 m_units = None, m_multipliers = None\<rparr>),
      (''ATT'', \<lparr>m_name = ''ATT'', m_format = None, m_labels = ''TimeUS,Roll'',
                 m_units = None, m_multipliers = None\<rparr>),
      (''CTUN'', \<lparr>m_name = ''CTUN'', m_format = None, m_labels = ''TimeUS,Bogus'',
                 m_units = None, m_multipliers = None\<rparr>)] =
     (False, [ErrNotDocumented ''BAT'' ''Volt'' [''TimeUS'', ''Curr'']])"
proof -
  let ?att = "\<lparr>m_name = ''ATT'', m_format = None, m_labels = ''TimeUS,Roll'',
                 m_units = None, m_multipliers = None\<rparr>"
  let ?bat = "\<lparr>m_name = ''BAT'', m_format = None, m_labels = ''TimeUS,Volt,Curr'',
                 m_units = None, m_multipliers = None\<rparr>"
  let ?ctun = "\<lparr>m_name = ''CTUN'', m_format = None, m_labels = ''TimeUS,Bogus'',
                 m_units = None, m_multipliers = None\<rparr>"
  let ?code = "[(''BAT'', ?bat), (''ATT'', ?att), (''CTUN'', ?ctun)]"
  let ?docco = "[(''ATT'', [''TimeUS'', ''Roll'']), (''BAT'', [''TimeUS'', ''Curr'']), (''CTUN'', [''TimeUS''])]"
  let ?st = "\<lparr>undocumented = [], overdocumented = [], out = []\<rparr>"
  have a: "sorted_items ?code = [(''ATT'', ?att)] @ (''BAT'', ?bat) # [(''CTUN'', ?ctun)]"
    by (simp add: sorted_items_def)
  have b: "check_code_names {} ?docco [(''ATT'', ?att)] ?st = Inr ?st" by simp
  have c: "map_of ?docco ''BAT'' = Some [''TimeUS'', ''Curr'']" by simp
  have d: "''BAT'' \<notin> {}" by simp
  have e: "split_on CHR '','' (m_labels ?bat) = [''TimeUS''] @ ''Volt'' # [''Curr'']" by simp
  have f: "set [''TimeUS''] \<subseteq> set [''TimeUS'', ''Curr'']" "distinct [''TimeUS'']"
          "''Volt'' \<notin> set [''TimeUS'', ''Curr'']" by simp_all
  from first_undocumented_label_is_fatal[OF a b c d e f] a e show ?thesis by simp
qed

text \<open>
  Claim C5 as stated fails when a label is repeated before the first undocumented one: the
  duplicate check of lines 441-443 comes first, and the report names the repeated label
  \<^verbatim>\<open>TimeUS\<close>, not the undocumented label \<^verbatim>\<open>Volt\<close>.
\<close>

theorem duplicate_label_before_missing_label_counterexample:
  "split_on CHR '','' ''TimeUS,TimeUS,Volt'' = [''TimeUS'', ''TimeUS'', ''Volt''] \<and>
   ''Volt'' \<notin> set [''TimeUS''] \<and>
   cross_reference {} [(''BAT'', [''TimeUS''])]
     [(''BAT'', \<lparr>m_name = ''BAT'', m_format = None, m_labels = ''TimeUS,TimeUS,Volt'',
                 m_units = None, m_multipliers = None\<rparr>)] =
     (False, [ErrDuplicateLabel ''BAT'' ''TimeUS''])"
  by (simp add: cross_reference_def sorted_items_def)

text \<open>
  Claim C10. A code name absent from the documentation is added to the undocumented set
  when it is not whitelisted and skipped when it is, and its labels are never read: giving
  every such record any other label string leaves the verdict and everything printed
  unchanged. A duplicate-label report therefore always names a documented message.
\<close>

theorem undocumented_names_labels_not_inspected:
  "cross_reference wl docco
     (map (\<lambda>(n, r). (n, if map_of docco n = None then r\<lparr>m_labels := f n r\<rparr> else r)) code) =
   cross_reference wl docco code
   \<and> (map_of docco nm = None \<longrightarrow>
        check_code_names wl docco ((nm, r) # rest) st =
          check_code_names wl docco rest
            (if nm \<in> wl then st else st\<lparr>undocumented := List.insert nm (undocumented st)\<rparr>))
   \<and> (ErrDuplicateLabel nm l \<in> set (snd (cross_reference wl docco code)) \<longrightarrow>
        map_of docco nm \<noteq> None)"
proof (intro conjI impI)
  let ?g = "\<lambda>(n, r). (n, if map_of docco n = None then r\<lparr>m_labels := f n r\<rparr> else r)"
  have k: "\<And>x. fst (?g x) = fst x" by (simp add: case_prod_beta)
  have s: "sorted_items (map ?g code) = map ?g (sorted_items code)"
    by (rule sorted_items_map_keep_key[OF k])
  show "cross_reference wl docco (map ?g code) = cross_reference wl docco code"
    unfolding cross_reference_def s check_code_names_relabel
      check_doc_names_relabel[OF sorted_items_keys_in_dict] ..
next
  assume "map_of docco nm = None"
  then show "check_code_names wl docco ((nm, r) # rest) st =
          check_code_names wl docco rest
            (if nm \<in> wl then st else st\<lparr>undocumented := List.insert nm (undocumented st)\<rparr>)"
    by simp
next
  assume "ErrDuplicateLabel nm l \<in> set (snd (cross_reference wl docco code))"
  then show "map_of docco nm \<noteq> None" by (rule cross_reference_dup_report)
qed

text \<open>
  The theorem at a run where \<^verbatim>\<open>DUP\<close> is undocumented: with the repeated labels \<^verbatim>\<open>X,X\<close> or
  with \<^verbatim>\<open>X,Y\<close> the run ends the same way, reporting \<^verbatim>\<open>DUP\<close> as undocumented; the
  documented \<^verbatim>\<open>ATT\<close> with the labels \<^verbatim>\<open>TimeUS,TimeUS\<close> gets the duplicate-label report.
\<close>

theorem undocumented_names_labels_not_inspected_witness:
  "map_of [(''ATT'', [''TimeUS''])] ''DUP'' = None \<and>
   cross_reference {} [(''ATT'', [''TimeUS''])]
     [(''DUP'', \<lparr>m_name = ''DUP'', m_format = None, m_labels = ''X,X'',
                 m_units = None, m_multipliers = None\<rparr>),
      (''ATT'', \<lparr>m_name = ''ATT'', m_format = None, m_labels = ''TimeUS'',
                 m_units = None, m_multipliers = None\<rparr>)] =
   cross_reference {} [(''ATT'', [''TimeUS''])]
     [(''DUP'', \<lparr>m_name = ''DUP'', m_format = None, m_labels = ''X,Y'',
                 m_units = None, m_multipliers = None\<rparr>),
      (''ATT'', \<lparr>m_name = ''ATT'', m_format = None, m_labels = ''TimeUS'',
                 m_units = None, m_multipliers = None\<rparr>)] \<and>
   cross_reference {} [(''ATT'', [''TimeUS''])]
     [(''DUP'', \<lparr>m_name = ''DUP'', m_format = None, m_labels = ''X,X'',
                 m_units = None, m_multipliers = None\<rparr>),
      (''ATT'', \<lparr>m_name = ''ATT'', m_format = None, m_labels = ''TimeUS'',
                 m_units = None, m_multipliers = None\<rparr>)] =
     (False, [ErrUndocumentedFound, Item ''DUP'']) \<and>
   check_code_names {} [(''ATT'', [''TimeUS''])]
     [(''DUP'', \<lparr>m_name = ''DUP'', m_format = None, m_labels = ''X,X'',
                 m_units = None, m_multipliers = None\<rparr>)]
     \<lparr>undocumented = [], overdocumented = [], out = []\<rparr> =
     Inr \<lparr>undocumented = [''DUP''], overdocumented = [], out = []\<rparr> \<and>
   ErrDuplicateLabel ''ATT'' ''TimeUS'' \<in> set (snd (cross_reference {} [(''ATT'', [''TimeUS''])]
     [(''ATT'', \<lparr>m_name = ''ATT'', m_format = None, m_labels = ''TimeUS,TimeUS'',
                 m_units = None, m_multipliers = None\<rparr>)])) \<and>
   map_of [(''ATT'', [''TimeUS''])] ''ATT'' \<noteq> None"
proof -
  let ?docco = "[(''ATT'', [''TimeUS''])]"
  let ?dup = "\<lparr>m_name = ''DUP'', m_format = None, m_labels = ''X,Y'',
                 m_units = None, m_multipliers = None\<rparr>"
  let ?att = "\<lparr>m_name = ''ATT'', m_format = None, m_labels = ''TimeUS'',
                 m_units = None, m_multipliers = None\<rparr>"
  let ?att2 = "\<lparr>m_name = ''ATT'', m_format = None, m_labels = ''TimeUS,TimeUS'',
                 m_units = None, m_multipliers = None\<rparr>"
  have n: "map_of ?docco ''DUP'' = None" by simp
  have d: "ErrDuplicateLabel ''ATT'' ''TimeUS'' \<in> set (snd (cross_reference {} ?docco [(''ATT'', ?att2)]))"
    by (simp add: cross_reference_def sorted_items_def)
  from undocumented_names_labels_not_inspected
         [of "{}" ?docco "\<lambda>n r. ''X,X''" "[(''DUP'', ?dup), (''ATT'', ?att)]" "''DUP''"
             "?dup\<lparr>m_labels := ''X,X''\<rparr>" "[]" "\<lparr>undocumented = [], overdocumented = [], out = []\<rparr>"
             "''TimeUS''"]
  have 1: "cross_reference {} ?docco [(''DUP'', ?dup\<lparr>m_labels := ''X,X''\<rparr>), (''ATT'', ?att)] =
           cross_reference {} ?docco [(''DUP'', ?dup), (''ATT'', ?att)]"
    and 2: "check_code_names {} ?docco [(''DUP'', ?dup\<lparr>m_labels := ''X,X''\<rparr>)]
              \<lparr>undocumented = [], overdocumented = [], out = []\<rparr> =
            Inr \<lparr>undocumented = [''DUP''], overdocumented = [], out = []\<rparr>"
    by simp_all
  from undocumented_names_labels_not_inspected
         [of "{}" ?docco "\<lambda>n r. ''X,X''" "[(''ATT'', ?att2)]" "''ATT''" ?att2 "[]"
             "\<lparr>undocumented = [], overdocumented = [], out = []\<rparr>" "''TimeUS''"] d
  have 3: "map_of ?docco ''ATT'' \<noteq> None" by blast
  have 4: "cross_reference {} ?docco [(''DUP'', ?dup), (''ATT'', ?att)] =
             (False, [ErrUndocumentedFound, Item ''DUP''])"
    by (simp add: cross_reference_def sorted_items_def)
  from n 1 2 3 4 d show ?thesis by simp
qed

section \<open>Claims about the extraction\<close>

text \<open>
  Claim C3, evaluated. A call whose labels argument is written as two adjacent literals on
  consecutive lines is reassembled to the labels of the first literal alone: the adjacent
  quotes are removed in each line before it is appended (line 273), so the two literals,
  which meet only across the line break, stay apart, and the call shape of line 292
  captures \<^verbatim>\<open>TimeUS,\<close>. The same call with the labels in one literal gives \<^verbatim>\<open>TimeUS,Alt\<close>.
\<close>

theorem split_literal_labels_truncated:
  "(case call_file \<lparr>c_state = STATE_OUTSIDE, log_write_statement = [], log_write_statements = []\<rparr>
            [''    AP::logger().Write('' @ [dquote] @ ''TEST'' @ [dquote] @ '', '' @ [dquote] @ ''TimeUS,'' @ [dquote, CHR 0x0A],
             ''                       '' @ [dquote] @ ''Alt'' @ [dquote] @ '','' @ [CHR 0x0A],
             ''                       '' @ [dquote] @ ''Qf'' @ [dquote] @ '', t, alt);'' @ [CHR 0x0A]] of
        Inl e \<Rightarrow> Inl e
      | Inr cs \<Rightarrow> call_results [] (map (re_sub pat_whitespace '' '') (log_write_statements cs)) []) = Inr [(''TEST'', ''TimeUS,'')] \<and>
   (case call_file \<lparr>c_state = STATE_OUTSIDE, log_write_statement = [], log_write_statements = []\<rparr>
            [''    AP::logger().Write('' @ [dquote] @ ''TEST'' @ [dquote] @ '', '' @ [dquote] @ ''TimeUS,Alt'' @ [dquote] @ '','' @ [CHR 0x0A],
             ''                       '' @ [dquote] @ ''Qf'' @ [dquote] @ '', t, alt);'' @ [CHR 0x0A]] of
        Inl e \<Rightarrow> Inl e
      | Inr cs \<Rightarrow> call_results [] (map (re_sub pat_whitespace '' '') (log_write_statements cs)) []) = Inr [(''TEST'', ''TimeUS,Alt'')]"
  by code_simp

text \<open>
  Claim C4, evaluated. An opening line that holds the whole call, terminator included,
  leaves the scan inside the statement (lines 263-269 do not look for the terminator): a
  file that ends with that line, or after one more line without a terminator, raises; a
  next line with a terminator is swallowed into the statement, so that of two one-line
  calls in a row only the first is recorded.
\<close>

theorem one_line_call_not_closed:
  "map_sum id log_write_statements
     (call_file \<lparr>c_state = STATE_OUTSIDE, log_write_statement = [], log_write_statements = []\<rparr>
        [''    AP::logger().Write('' @ [dquote] @ ''TEST'' @ [dquote] @ '', '' @ [dquote] @ ''TimeUS,Alt'' @ [dquote] @ '', '' @ [dquote] @ ''Qf'' @ [dquote] @ '', t, alt);'' @ [CHR 0x0A]]) = Inl ExpectedOutsideAtEnd \<and>
   map_sum id log_write_statements
     (call_file \<lparr>c_state = STATE_OUTSIDE, log_write_statement = [], log_write_statements = []\<rparr>
        [''    AP::logger().Write('' @ [dquote] @ ''TEST'' @ [dquote] @ '', '' @ [dquote] @ ''TimeUS,Alt'' @ [dquote] @ '', '' @ [dquote] @ ''Qf'' @ [dquote] @ '', t, alt);'' @ [CHR 0x0A],
         ''}'' @ [CHR 0x0A]]) = Inl ExpectedOutsideAtEnd \<and>
   map_sum id log_write_statements
     (call_file \<lparr>c_state = STATE_OUTSIDE, log_write_statement = [], log_write_statements = []\<rparr>
        [''    AP::logger().Write('' @ [dquote] @ ''TEST'' @ [dquote] @ '', '' @ [dquote] @ ''TimeUS,Alt'' @ [dquote] @ '', '' @ [dquote] @ ''Qf'' @ [dquote] @ '', t, alt);'' @ [CHR 0x0A],
         ''    AP::logger().Write('' @ [dquote] @ ''TST2'' @ [dquote] @ '', '' @ [dquote] @ ''TimeUS,Vel'' @ [dquote] @ '', '' @ [dquote] @ ''Qf'' @ [dquote] @ '', t, vel);'' @ [CHR 0x0A]]) =
     Inr [''    AP::logger().Write('' @ [dquote] @ ''TEST'' @ [dquote] @ '', '' @ [dquote] @ ''TimeUS,Alt'' @ [dquote] @ '', '' @ [dquote] @ ''Qf'' @ [dquote] @ '', t, alt);'' @ [CHR 0x0A] @ ''    AP::logger().Write('' @ [dquote] @ ''TST2'' @ [dquote] @ '', '' @ [dquote] @ ''TimeUS,Vel'' @ [dquote] @ '', '' @ [dquote] @ ''Qf'' @ [dquote] @ '', t, vel);'' @ [CHR 0x0A]] \<and>
   (case call_file \<lparr>c_state = STATE_OUTSIDE, log_write_statement = [], log_write_statements = []\<rparr>
            [''    AP::logger().Write('' @ [dquote] @ ''TEST'' @ [dquote] @ '', '' @ [dquote] @ ''TimeUS,Alt'' @ [dquote] @ '', '' @ [dquote] @ ''Qf'' @ [dquote] @ '', t, alt);'' @ [CHR 0x0A],
             ''    AP::logger().Write('' @ [dquote] @ ''TST2'' @ [dquote] @ '', '' @ [dquote] @ ''TimeUS,Vel'' @ [dquote] @ '', '' @ [dquote] @ ''Qf'' @ [dquote] @ '', t, vel);'' @ [CHR 0x0A]] of
      Inl e \<Rightarrow> Inl e
    | Inr cs \<Rightarrow> call_results [] (map (re_sub pat_whitespace '' '') (log_write_statements cs)) []) = Inr [(''TEST'', ''TimeUS,Alt'')]"
  by code_simp

text \<open>
  Claim C6. Building the merged record set fails when two struct-table entries give
  records of the same name (the defines being those found in the declaration files), when
  a call-site name is the name of another call-site record or of a struct-table record
  already present, and when no record at all was recovered: on the normalizer loops, and
  on the whole extraction once the scans before them have succeeded. The extraction never
  returns an empty set, and the names it returns are pairwise different.
\<close>

theorem duplicate_names_and_empty_set_are_fatal:
  "(find_format_defines lines [] = Inr defs \<and>
    struct_record defs a = Inr (Some ra) \<and> struct_record defs b = Inr (Some rb) \<and>
    m_name ra = m_name rb \<longrightarrow>
      (\<exists>n. struct_records defs (xs @ a # ys @ b # zs) [] = Inl (AlreadySeen n)))
   \<and> (distinct (map fst ids) \<and> \<not> distinct (map fst ids @ map fst results) \<longrightarrow>
        (\<exists>n. merge_results results ids = Inl (AlreadyHaveId n)))
   \<and> (find_format_defines (concat (structure_files src)) [] = Inr defs' \<and>
        scan_structure_files
          \<lparr>state = STATE_OUTSIDE, linestate = LINESTATE_NONE, partial_line = [], message_infos = []\<rparr>
          (structure_files src) = Inr sc \<and>
        vehicle_file sc (vehicle_log_cpp src) = Inr sc' \<longrightarrow>
        (message_infos sc' = xs' @ a' # ys' @ b' # zs' \<and>
         struct_record defs' a' = Inr (Some ra') \<and> struct_record defs' b' = Inr (Some rb') \<and>
         m_name ra' = m_name rb' \<longrightarrow>
           (\<exists>n. all_log_format_ids src = Inl (AlreadySeen n))) \<and>
        (\<forall>ids' cs results'.
           struct_records defs' (message_infos sc') [] = Inr ids' \<and>
           scan_call_files \<lparr>c_state = STATE_OUTSIDE, log_write_statement = [], log_write_statements = []\<rparr>
             (cpp_files src) = Inr cs \<and>
           call_results defs' (map (re_sub pat_whitespace '' '') (log_write_statements cs)) [] = Inr results' \<longrightarrow>
           (\<not> distinct (map fst ids' @ map fst results') \<longrightarrow>
              (\<exists>n. all_log_format_ids src = Inl (AlreadyHaveId n))) \<and>
           (ids' = [] \<and> results' = [] \<longrightarrow> all_log_format_ids src = Inl DidNotGetAnyIds)))
   \<and> all_log_format_ids src \<noteq> Inr []
   \<and> (all_log_format_ids src = Inr code \<longrightarrow> distinct (map fst code))"
proof -
  have B: "\<exists>n. merge_results rs is = Inl (AlreadyHaveId n)"
    if "distinct (map fst is)" "\<not> distinct (map fst is @ map fst rs)" for rs "is"
  proof (cases "merge_results rs is")
    case (Inl e)
    from merge_results_error[OF Inl] show ?thesis using Inl by auto
  next
    case (Inr r)
    from merge_results_keys[OF Inr] merge_results_distinct[OF Inr that(1)] that(2)
    show ?thesis by simp
  qed
  have D: "distinct (map fst code)" if "all_log_format_ids src = Inr code"
  proof -
    from that obtain d s ids0 rs where
      s: "struct_records d s [] = Inr ids0" and m: "merge_results rs ids0 = Inr code"
      by (auto simp: all_log_format_ids_def split: sum.splits if_splits)
    from struct_records_distinct[OF s] have "distinct (map fst ids0)" by simp
    from merge_results_distinct[OF m this] show ?thesis .
  qed
  have E: "all_log_format_ids src \<noteq> Inr []"
    by (auto simp: all_log_format_ids_def split: sum.splits)
  show ?thesis
  proof (intro conjI impI allI)
    assume "find_format_defines lines [] = Inr defs \<and>
      struct_record defs a = Inr (Some ra) \<and> struct_record defs b = Inr (Some rb) \<and>
      m_name ra = m_name rb"
    then show "\<exists>n. struct_records defs (xs @ a # ys @ b # zs) [] = Inl (AlreadySeen n)"
      using struct_records_shared_name by blast
  next
    assume "distinct (map fst ids) \<and> \<not> distinct (map fst ids @ map fst results)"
    then show "\<exists>n. merge_results results ids = Inl (AlreadyHaveId n)" using B by blast
  next
    assume p: "find_format_defines (concat (structure_files src)) [] = Inr defs' \<and>
        scan_structure_files
          \<lparr>state = STATE_OUTSIDE, linestate = LINESTATE_NONE, partial_line = [], message_infos = []\<rparr>
          (structure_files src) = Inr sc \<and>
        vehicle_file sc (vehicle_log_cpp src) = Inr sc'"
      and q: "message_infos sc' = xs' @ a' # ys' @ b' # zs' \<and>
         struct_record defs' a' = Inr (Some ra') \<and> struct_record defs' b' = Inr (Some rb') \<and>
         m_name ra' = m_name rb'"
    from q struct_records_shared_name[of defs' a' ra' b' rb' xs' ys' zs']
    obtain n where "struct_records defs' (message_infos sc') [] = Inl (AlreadySeen n)"
      by auto
    with p show "\<exists>n. all_log_format_ids src = Inl (AlreadySeen n)"
      by (auto simp: all_log_format_ids_def)
  next
    fix ids' cs results'
    assume p: "find_format_defines (concat (structure_files src)) [] = Inr defs' \<and>
        scan_structure_files
          \<lparr>state = STATE_OUTSIDE, linestate = LINESTATE_NONE, partial_line = [], message_infos = []\<rparr>
          (structure_files src) = Inr sc \<and>
        vehicle_file sc (vehicle_log_cpp src) = Inr sc'"
      and q: "struct_records defs' (message_infos sc') [] = Inr ids' \<and>
           scan_call_files \<lparr>c_state = STATE_OUTSIDE, log_write_statement = [], log_write_statements = []\<rparr>
             (cpp_files src) = Inr cs \<and>
           call_results defs' (map (re_sub pat_whitespace '' '') (log_write_statements cs)) [] = Inr results'"
    {
      assume nd: "\<not> distinct (map fst ids' @ map fst results')"
      from q struct_records_distinct[of defs' "message_infos sc'" "[]" ids']
      have "distinct (map fst ids')" by simp
      from B[OF this nd] obtain n where "merge_results results' ids' = Inl (AlreadyHaveId n)" by blast
      with p q show "\<exists>n. all_log_format_ids src = Inl (AlreadyHaveId n)"
        by (auto simp: all_log_format_ids_def)
    }
    {
      assume "ids' = [] \<and> results' = []"
      with p q show "all_log_format_ids src = Inl DidNotGetAnyIds"
        by (auto simp: all_log_format_ids_def)
    }
  next
    show "all_log_format_ids src \<noteq> Inr []" by (rule E)
  next
    assume "all_log_format_ids src = Inr code"
    then show "distinct (map fst code)" by (rule D)
  qed
qed

text \<open>
  The theorem at two struct-table entries named \<^verbatim>\<open>X\<close>, the first with its labels written as
  the define \<^verbatim>\<open>X_LABELS\<close>; at a call site named \<^verbatim>\<open>X\<close> beside a struct-table record \<^verbatim>\<open>X\<close>;
  and at a source tree with no file at all.
\<close>

theorem duplicate_names_and_empty_set_are_fatal_witness:
  "(\<exists>n. struct_records [(''X_LABELS'', [dquote] @ ''TimeUS,A'' @ [dquote])]
          ['' LOG_X_MSG, sizeof(log_X), '' @ [dquote] @ ''X'' @ [dquote] @ '', '' @ [dquote] @ ''Qf'' @ [dquote] @ '', X_LABELS, '' @ [dquote] @ ''s-'' @ [dquote] @ '', '' @ [dquote] @ ''F-'' @ [dquote] @ '' '',
           '' LOG_X2_MSG, sizeof(log_X2), '' @ [dquote] @ ''X'' @ [dquote] @ '', '' @ [dquote] @ ''Qf'' @ [dquote] @ '', '' @ [dquote] @ ''TimeUS,B'' @ [dquote] @ '', '' @ [dquote] @ ''s-'' @ [dquote] @ '', '' @ [dquote] @ ''F-'' @ [dquote] @ '' ''] [] = Inl (AlreadySeen n)) \<and>
   (\<exists>n. merge_results [(''X'', ''TimeUS,Alt'')]
          [(''X'', \<lparr>m_name = ''X'', m_format = Some ''Qf'', m_labels = ''TimeUS,A'', m_units = Some ''s-'', m_multipliers = Some ''F-''\<rparr>)] = Inl (AlreadyHaveId n)) \<and>
   (\<exists>n. all_log_format_ids
     \<lparr>structure_files = [[''#define X_LABELS '' @ [dquote] @ ''TimeUS,A'' @ [dquote, CHR 0x0A],
        ''#define LOG_COMMON_STRUCTURES '' @ [backslash, CHR 0x0A],
        ''    { LOG_X_MSG, sizeof(log_X), '' @ [dquote] @ ''X'' @ [dquote] @ '', '' @ [dquote] @ ''Qf'' @ [dquote] @ '', X_LABELS, '' @ [dquote] @ ''s-'' @ [dquote] @ '', '' @ [dquote] @ ''F-'' @ [dquote] @ '' }, '' @ [backslash, CHR 0x0A],
        ''    { LOG_X2_MSG, sizeof(log_X2), '' @ [dquote] @ ''X'' @ [dquote] @ '', '' @ [dquote] @ ''Qf'' @ [dquote] @ '', '' @ [dquote] @ ''TimeUS,B'' @ [dquote] @ '', '' @ [dquote] @ ''s-'' @ [dquote] @ '', '' @ [dquote] @ ''F-'' @ [dquote] @ '' }, '' @ [backslash, CHR 0x0A]]],
      vehicle_log_cpp = [''const struct LogStructure Copter::log_structure[] = {'' @ [CHR 0x0A],
        ''    LOG_COMMON_STRUCTURES,'' @ [CHR 0x0A],
        ''};'' @ [CHR 0x0A]],
      cpp_files = []\<rparr> = Inl (AlreadySeen n)) \<and>
   (\<exists>n. all_log_format_ids
     \<lparr>structure_files = [[''#define X_LABELS '' @ [dquote] @ ''TimeUS,A'' @ [dquote, CHR 0x0A],
        ''#define LOG_COMMON_STRUCTURES '' @ [backslash, CHR 0x0A],
        ''    { LOG_X_MSG, sizeof(log_X), '' @ [dquote] @ ''X'' @ [dquote] @ '', '' @ [dquote] @ ''Qf'' @ [dquote] @ '', X_LABELS, '' @ [dquote] @ ''s-'' @ [dquote] @ '', '' @ [dquote] @ ''F-'' @ [dquote] @ '' }, '' @ [backslash, CHR 0x0A]]],
      vehicle_log_cpp = [''const struct LogStructure Copter::log_structure[] = {'' @ [CHR 0x0A],
        ''    LOG_COMMON_STRUCTURES,'' @ [CHR 0x0A],
        ''};'' @ [CHR 0x0A]],
      cpp_files = [[''    AP::logger().Write('' @ [dquote] @ ''X'' @ [dquote] @ '', '' @ [dquote] @ ''TimeUS,Alt'' @ [dquote] @ '', '' @ [dquote] @ ''Qf'' @ [dquote] @ '','' @ [CHR 0x0A],
       ''        t, alt);'' @ [CHR 0x0A]]]\<rparr> = Inl (AlreadyHaveId n)) \<and>
   all_log_format_ids \<lparr>structure_files = [], vehicle_log_cpp = [], cpp_files = []\<rparr> =
     Inl DidNotGetAnyIds"
proof -
  let ?e1 = "'' LOG_X_MSG, sizeof(log_X), '' @ [dquote] @ ''X'' @ [dquote] @ '', '' @ [dquote] @ ''Qf'' @ [dquote] @ '', X_LABELS, '' @ [dquote] @ ''s-'' @ [dquote] @ '', '' @ [dquote] @ ''F-'' @ [dquote] @ '' ''"
  let ?e2 = "'' LOG_X2_MSG, sizeof(log_X2), '' @ [dquote] @ ''X'' @ [dquote] @ '', '' @ [dquote] @ ''Qf'' @ [dquote] @ '', '' @ [dquote] @ ''TimeUS,B'' @ [dquote] @ '', '' @ [dquote] @ ''s-'' @ [dquote] @ '', '' @ [dquote] @ ''F-'' @ [dquote] @ '' ''"
  let ?defs = "[(''X_LABELS'', [dquote] @ ''TimeUS,A'' @ [dquote])]"
  let ?recX = "\<lparr>m_name = ''X'', m_format = Some ''Qf'', m_labels = ''TimeUS,A'', m_units = Some ''s-'', m_multipliers = Some ''F-''\<rparr>"
  let ?recX2 = "\<lparr>m_name = ''X'', m_format = Some ''Qf'', m_labels = ''TimeUS,B'', m_units = Some ''s-'', m_multipliers = Some ''F-''\<rparr>"
  let ?src1 = "\<lparr>structure_files = [[''#define X_LABELS '' @ [dquote] @ ''TimeUS,A'' @ [dquote, CHR 0x0A],
        ''#define LOG_COMMON_STRUCTURES '' @ [backslash, CHR 0x0A],
        ''    { LOG_X_MSG, sizeof(log_X), '' @ [dquote] @ ''X'' @ [dquote] @ '', '' @ [dquote] @ ''Qf'' @ [dquote] @ '', X_LABELS, '' @ [dquote] @ ''s-'' @ [dquote] @ '', '' @ [dquote] @ ''F-'' @ [dquote] @ '' }, '' @ [backslash, CHR 0x0A],
        ''    { LOG_X2_MSG, sizeof(log_X2), '' @ [dquote] @ ''X'' @ [dquote] @ '', '' @ [dquote] @ ''Qf'' @ [dquote] @ '', '' @ [dquote] @ ''TimeUS,B'' @ [dquote] @ '', '' @ [dquote] @ ''s-'' @ [dquote] @ '', '' @ [dquote] @ ''F-'' @ [dquote] @ '' }, '' @ [backslash, CHR 0x0A]]],
      vehicle_log_cpp = [''const struct LogStructure Copter::log_structure[] = {'' @ [CHR 0x0A],
        ''    LOG_COMMON_STRUCTURES,'' @ [CHR 0x0A],
        ''};'' @ [CHR 0x0A]],
      cpp_files = []\<rparr>"
  let ?src2 = "\<lparr>structure_files = [[''#define X_LABELS '' @ [dquote] @ ''TimeUS,A'' @ [dquote, CHR 0x0A],
        ''#define LOG_COMMON_STRUCTURES '' @ [backslash, CHR 0x0A],
        ''    { LOG_X_MSG, sizeof(log_X), '' @ [dquote] @ ''X'' @ [dquote] @ '', '' @ [dquote] @ ''Qf'' @ [dquote] @ '', X_LABELS, '' @ [dquote] @ ''s-'' @ [dquote] @ '', '' @ [dquote] @ ''F-'' @ [dquote] @ '' }, '' @ [backslash, CHR 0x0A]]],
      vehicle_log_cpp = [''const struct LogStructure Copter::log_structure[] = {'' @ [CHR 0x0A],
        ''    LOG_COMMON_STRUCTURES,'' @ [CHR 0x0A],
        ''};'' @ [CHR 0x0A]],
      cpp_files = [[''    AP::logger().Write('' @ [dquote] @ ''X'' @ [dquote] @ '', '' @ [dquote] @ ''TimeUS,Alt'' @ [dquote] @ '', '' @ [dquote] @ ''Qf'' @ [dquote] @ '','' @ [CHR 0x0A],
       ''        t, alt);'' @ [CHR 0x0A]]]\<rparr>"
  let ?src3 = "\<lparr>structure_files = [], vehicle_log_cpp = [], cpp_files = []\<rparr>"
  let ?init = "\<lparr>state = STATE_OUTSIDE, linestate = LINESTATE_NONE, partial_line = [], message_infos = []\<rparr>"
  let ?cinit = "\<lparr>c_state = STATE_OUTSIDE, log_write_statement = [], log_write_statements = []\<rparr>"
  let ?sc1 = "\<lparr>state = STATE_INSIDE, linestate = LINESTATE_NONE, partial_line = [], message_infos = ['' LOG_X_MSG, sizeof(log_X), '' @ [dquote] @ ''X'' @ [dquote] @ '', '' @ [dquote] @ ''Qf'' @ [dquote] @ '', X_LABELS, '' @ [dquote] @ ''s-'' @ [dquote] @ '', '' @ [dquote] @ ''F-'' @ [dquote] @ '' '',
        '' LOG_X2_MSG, sizeof(log_X2), '' @ [dquote] @ ''X'' @ [dquote] @ '', '' @ [dquote] @ ''Qf'' @ [dquote] @ '', '' @ [dquote] @ ''TimeUS,B'' @ [dquote] @ '', '' @ [dquote] @ ''s-'' @ [dquote] @ '', '' @ [dquote] @ ''F-'' @ [dquote] @ '' '']\<rparr>"
  let ?sc1' = "\<lparr>state = STATE_OUTSIDE, linestate = LINESTATE_NONE, partial_line = [], message_infos = ['' LOG_X_MSG, sizeof(log_X), '' @ [dquote] @ ''X'' @ [dquote] @ '', '' @ [dquote] @ ''Qf'' @ [dquote] @ '', X_LABELS, '' @ [dquote] @ ''s-'' @ [dquote] @ '', '' @ [dquote] @ ''F-'' @ [dquote] @ '' '',
        '' LOG_X2_MSG, sizeof(log_X2), '' @ [dquote] @ ''X'' @ [dquote] @ '', '' @ [dquote] @ ''Qf'' @ [dquote] @ '', '' @ [dquote] @ ''TimeUS,B'' @ [dquote] @ '', '' @ [dquote] @ ''s-'' @ [dquote] @ '', '' @ [dquote] @ ''F-'' @ [dquote] @ '' '']\<rparr>"
  let ?sc2 = "\<lparr>state = STATE_INSIDE, linestate = LINESTATE_NONE, partial_line = [], message_infos = ['' LOG_X_MSG, sizeof(log_X), '' @ [dquote] @ ''X'' @ [dquote] @ '', '' @ [dquote] @ ''Qf'' @ [dquote] @ '', X_LABELS, '' @ [dquote] @ ''s-'' @ [dquote] @ '', '' @ [dquote] @ ''F-'' @ [dquote] @ '' '']\<rparr>"
  let ?sc2' = "\<lparr>state = STATE_OUTSIDE, linestate = LINESTATE_NONE, partial_line = [], message_infos = ['' LOG_X_MSG, sizeof(log_X), '' @ [dquote] @ ''X'' @ [dquote] @ '', '' @ [dquote] @ ''Qf'' @ [dquote] @ '', X_LABELS, '' @ [dquote] @ ''s-'' @ [dquote] @ '', '' @ [dquote] @ ''F-'' @ [dquote] @ '' '']\<rparr>"
  let ?cs = "\<lparr>c_state = STATE_OUTSIDE, log_write_statement = ''    AP::logger().Write('' @ [dquote] @ ''X'' @ [dquote] @ '', '' @ [dquote] @ ''TimeUS,Alt'' @ [dquote] @ '', '' @ [dquote] @ ''Qf'' @ [dquote] @ '','' @ [CHR 0x0A] @ ''        t, alt);'' @ [CHR 0x0A], log_write_statements = [''    AP::logger().Write('' @ [dquote] @ ''X'' @ [dquote] @ '', '' @ [dquote] @ ''TimeUS,Alt'' @ [dquote] @ '', '' @ [dquote] @ ''Qf'' @ [dquote] @ '','' @ [CHR 0x0A] @ ''        t, alt);'' @ [CHR 0x0A]]\<rparr>"
  have a: "find_format_defines [''#define X_LABELS '' @ [dquote] @ ''TimeUS,A'' @ [dquote, CHR 0x0A]] [] = Inr ?defs \<and>
           struct_record ?defs ?e1 = Inr (Some ?recX) \<and>
           struct_record ?defs ?e2 = Inr (Some ?recX2) \<and> m_name ?recX = m_name ?recX2"
    by code_simp
  have b: "distinct (map fst [(''X'', ?recX)]) \<and>
           \<not> distinct (map fst [(''X'', ?recX)] @ map fst [(''X'', ''TimeUS,Alt'')])"
    by simp
  have c1: "find_format_defines (concat (structure_files ?src1)) [] = Inr ?defs \<and>
            scan_structure_files ?init (structure_files ?src1) = Inr ?sc1 \<and>
            vehicle_file ?sc1 (vehicle_log_cpp ?src1) = Inr ?sc1'"
    by code_simp
  have c2: "message_infos ?sc1' = [] @ ?e1 # [] @ ?e2 # []"
    by simp
  have d1: "find_format_defines (concat (structure_files ?src2)) [] = Inr ?defs \<and>
            scan_structure_files ?init (structure_files ?src2) = Inr ?sc2 \<and>
            vehicle_file ?sc2 (vehicle_log_cpp ?src2) = Inr ?sc2'"
    by code_simp
  have d2: "struct_records ?defs (message_infos ?sc2') [] = Inr [(''X'', ?recX)] \<and>
            scan_call_files ?cinit (cpp_files ?src2) = Inr ?cs \<and>
            call_results ?defs (map (re_sub pat_whitespace '' '') (log_write_statements ?cs)) [] =
              Inr [(''X'', ''TimeUS,Alt'')]"
    by code_simp
  have d3: "\<not> distinct (map fst [(''X'', ?recX)] @ map fst [(''X'', ''TimeUS,Alt'')])"
    by simp
  have e1: "find_format_defines (concat (structure_files ?src3)) [] = Inr [] \<and>
            scan_structure_files ?init (structure_files ?src3) = Inr ?init \<and>
            vehicle_file ?init (vehicle_log_cpp ?src3) = Inr ?init"
    by code_simp
  have e2: "struct_records [] (message_infos ?init) [] = Inr [] \<and>
            scan_call_files ?cinit (cpp_files ?src3) = Inr ?cinit \<and>
            call_results [] (map (re_sub pat_whitespace '' '') (log_write_statements ?cinit)) [] = Inr []"
    by code_simp
  from duplicate_names_and_empty_set_are_fatal
         [where lines = "[''#define X_LABELS '' @ [dquote] @ ''TimeUS,A'' @ [dquote, CHR 0x0A]]" and defs = ?defs and a = ?e1 and b = ?e2
            and ra = ?recX and rb = ?recX2 and xs = "[]" and ys = "[]" and zs = "[]"
            and ids = "[(''X'', ?recX)]"
            and results = "[(''X'', ''TimeUS,Alt'')]" and src = ?src1 and defs' = ?defs
            and sc = ?sc1 and sc' = ?sc1' and a' = ?e1 and b' = ?e2
            and ra' = ?recX and rb' = ?recX2 and xs' = "[]" and ys' = "[]" and zs' = "[]"]
       a b c1 c2
  have 1: "(\<exists>n. struct_records ?defs [?e1, ?e2] [] = Inl (AlreadySeen n))"
    and 2: "(\<exists>n. merge_results [(''X'', ''TimeUS,Alt'')] [(''X'', ?recX)] = Inl (AlreadyHaveId n))"
    and 3: "(\<exists>n. all_log_format_ids ?src1 = Inl (AlreadySeen n))"
    by simp_all
  from duplicate_names_and_empty_set_are_fatal
         [where src = ?src2 and defs' = ?defs and sc = ?sc2 and sc' = ?sc2'] d1 d2 d3
  have 4: "(\<exists>n. all_log_format_ids ?src2 = Inl (AlreadyHaveId n))"
    by simp
  from duplicate_names_and_empty_set_are_fatal
         [where src = ?src3 and defs' = "[]" and sc = ?init and sc' = ?init] e1 e2
  have 5: "all_log_format_ids ?src3 = Inl DidNotGetAnyIds"
    by simp
  from 1 2 3 4 5 show ?thesis by blast
qed

text \<open>
  Claim C9. A struct-table entry whose text, after the substitution of the defines found in
  the declaration files, does not match the record shape is skipped: the normalizer gives
  the same result, records and errors alike, as for the list without the entry, and
  nothing else happens in that branch (lines 227-228). A call-site statement whose text
  after the substitution matches neither call shape raises (line 295): the normalizer loop
  ends with that error at the first such statement, and the whole extraction fails
  whenever the call-site scan produced such a statement.
\<close>

theorem unmatched_entry_by_provenance:
  "(find_format_defines lines [] = Inr defs \<and>
    substitute_defines defs info = Inr itext \<and> re_match pat_struct itext = None \<longrightarrow>
      struct_records defs (before @ info # rest) ids = struct_records defs (before @ rest) ids)
   \<and> (find_format_defines lines [] = Inr defs \<and> stmt \<in> set stmts \<and>
        substitute_defines defs stmt = Inr stext \<and>
        re_match pat_call_logger stext = None \<and>
        re_match pat_call_ap_logger stext = None \<longrightarrow>
        (\<exists>s \<in> set stmts. \<exists>t. substitute_defines defs s = Inr t \<and>
           re_match pat_call_logger t = None \<and> re_match pat_call_ap_logger t = None \<and>
           call_results defs stmts results = Inl (DidNotMatch t)))
   \<and> (find_format_defines (concat (structure_files src)) [] = Inr defs' \<and>
        scan_call_files \<lparr>c_state = STATE_OUTSIDE, log_write_statement = [], log_write_statements = []\<rparr>
          (cpp_files src) = Inr cs \<and>
        stmt' \<in> set (map (re_sub pat_whitespace '' '') (log_write_statements cs)) \<and>
        substitute_defines defs' stmt' = Inr stext' \<and>
        re_match pat_call_logger stext' = None \<and>
        re_match pat_call_ap_logger stext' = None \<longrightarrow>
        (\<exists>e. all_log_format_ids src = Inl e))"
proof (intro conjI impI)
  assume "find_format_defines lines [] = Inr defs \<and>
    substitute_defines defs info = Inr itext \<and> re_match pat_struct itext = None"
  then have "struct_record defs info = Inr None" by (simp add: struct_record_def)
  then show "struct_records defs (before @ info # rest) ids = struct_records defs (before @ rest) ids"
    by (simp add: struct_records_append split: sum.splits)
next
  assume "find_format_defines lines [] = Inr defs \<and> stmt \<in> set stmts \<and>
        substitute_defines defs stmt = Inr stext \<and>
        re_match pat_call_logger stext = None \<and>
        re_match pat_call_ap_logger stext = None"
  then show "\<exists>s \<in> set stmts. \<exists>t. substitute_defines defs s = Inr t \<and>
           re_match pat_call_logger t = None \<and> re_match pat_call_ap_logger t = None \<and>
           call_results defs stmts results = Inl (DidNotMatch t)"
    using call_results_no_match[of stmt stmts defs stext results] by blast
next
  let ?stmts = "map (re_sub pat_whitespace '' '') (log_write_statements cs)"
  assume a: "find_format_defines (concat (structure_files src)) [] = Inr defs' \<and>
        scan_call_files \<lparr>c_state = STATE_OUTSIDE, log_write_statement = [], log_write_statements = []\<rparr>
          (cpp_files src) = Inr cs \<and>
        stmt' \<in> set ?stmts \<and>
        substitute_defines defs' stmt' = Inr stext' \<and>
        re_match pat_call_logger stext' = None \<and>
        re_match pat_call_ap_logger stext' = None"
  then obtain t where "call_results defs' ?stmts [] = Inl (DidNotMatch t)"
    using call_results_no_match[of stmt' ?stmts defs' stext' "[]"] by blast
  with a show "\<exists>e. all_log_format_ids src = Inl e"
    by (auto simp: all_log_format_ids_def split: sum.splits)
qed

text \<open>
  The theorem with the define \<^verbatim>\<open>Y_LABELS\<close>: at an entry whose name is not a literal
  (\<^verbatim>\<open>W_NAME\<close>), between two proper entries, and at a call whose name is not a literal, behind
  a proper call and as the only call of a source tree.
\<close>

theorem unmatched_entry_by_provenance_witness:
  "substitute_defines [(''Y_LABELS'', [dquote] @ ''TimeUS,B'' @ [dquote])]
      ('' LOG_W_MSG, sizeof(log_W), W_NAME, '' @ [dquote] @ ''Qf'' @ [dquote] @ '', Y_LABELS, '' @ [dquote] @ ''s-'' @ [dquote] @ '', '' @ [dquote] @ ''F-'' @ [dquote] @ '' '') =
     Inr ('' LOG_W_MSG, sizeof(log_W), W_NAME, '' @ [dquote] @ ''Qf'' @ [dquote] @ '', '' @ [dquote] @ ''TimeUS,B'' @ [dquote] @ '', '' @ [dquote] @ ''s-'' @ [dquote] @ '', '' @ [dquote] @ ''F-'' @ [dquote] @ '' '') \<and>
   re_match pat_struct
      ('' LOG_W_MSG, sizeof(log_W), W_NAME, '' @ [dquote] @ ''Qf'' @ [dquote] @ '', '' @ [dquote] @ ''TimeUS,B'' @ [dquote] @ '', '' @ [dquote] @ ''s-'' @ [dquote] @ '', '' @ [dquote] @ ''F-'' @ [dquote] @ '' '') = None \<and>
   struct_records [(''Y_LABELS'', [dquote] @ ''TimeUS,B'' @ [dquote])]
     (['' LOG_Y_MSG, sizeof(log_Y), '' @ [dquote] @ ''Y'' @ [dquote] @ '', '' @ [dquote] @ ''Qf'' @ [dquote] @ '', Y_LABELS, '' @ [dquote] @ ''s-'' @ [dquote] @ '', '' @ [dquote] @ ''F-'' @ [dquote] @ '' ''] @
      ('' LOG_W_MSG, sizeof(log_W), W_NAME, '' @ [dquote] @ ''Qf'' @ [dquote] @ '', Y_LABELS, '' @ [dquote] @ ''s-'' @ [dquote] @ '', '' @ [dquote] @ ''F-'' @ [dquote] @ '' '') #
      ['' LOG_Z_MSG, sizeof(log_Z), '' @ [dquote] @ ''Z'' @ [dquote] @ '', '' @ [dquote] @ ''Qf'' @ [dquote] @ '', '' @ [dquote] @ ''TimeUS,C'' @ [dquote] @ '', '' @ [dquote] @ ''s-'' @ [dquote] @ '', '' @ [dquote] @ ''F-'' @ [dquote] @ '' '']) [] =
   struct_records [(''Y_LABELS'', [dquote] @ ''TimeUS,B'' @ [dquote])]
     (['' LOG_Y_MSG, sizeof(log_Y), '' @ [dquote] @ ''Y'' @ [dquote] @ '', '' @ [dquote] @ ''Qf'' @ [dquote] @ '', Y_LABELS, '' @ [dquote] @ ''s-'' @ [dquote] @ '', '' @ [dquote] @ ''F-'' @ [dquote] @ '' ''] @
      ['' LOG_Z_MSG, sizeof(log_Z), '' @ [dquote] @ ''Z'' @ [dquote] @ '', '' @ [dquote] @ ''Qf'' @ [dquote] @ '', '' @ [dquote] @ ''TimeUS,C'' @ [dquote] @ '', '' @ [dquote] @ ''s-'' @ [dquote] @ '', '' @ [dquote] @ ''F-'' @ [dquote] @ '' '']) [] \<and>
   call_results [(''Y_LABELS'', [dquote] @ ''TimeUS,B'' @ [dquote])]
        ['' AP::logger().Write('' @ [dquote] @ ''TEST'' @ [dquote] @ '', Y_LABELS, '' @ [dquote] @ ''Qf'' @ [dquote] @ '', t, alt); '',
         '' AP::logger().Write(name, Y_LABELS, '' @ [dquote] @ ''Qf'' @ [dquote] @ '', t, alt); ''] [] =
      Inl (DidNotMatch ('' AP::logger().Write(name, '' @ [dquote] @ ''TimeUS,B'' @ [dquote] @ '', '' @ [dquote] @ ''Qf'' @ [dquote] @ '', t, alt); '')) \<and>
   (\<exists>e. all_log_format_ids
      \<lparr>structure_files = [[''#define Y_LABELS '' @ [dquote] @ ''TimeUS,B'' @ [dquote, CHR 0x0A]]], vehicle_log_cpp = [], cpp_files = [[''    AP::logger().Write(name, Y_LABELS, '' @ [dquote] @ ''Qf'' @ [dquote] @ '','' @ [CHR 0x0A],
       ''        t, alt);'' @ [CHR 0x0A]]]\<rparr> = Inl e)"
proof -
  let ?defs = "[(''Y_LABELS'', [dquote] @ ''TimeUS,B'' @ [dquote])]"
  let ?lines = "[''#define Y_LABELS '' @ [dquote] @ ''TimeUS,B'' @ [dquote, CHR 0x0A]]"
  let ?Y = "'' LOG_Y_MSG, sizeof(log_Y), '' @ [dquote] @ ''Y'' @ [dquote] @ '', '' @ [dquote] @ ''Qf'' @ [dquote] @ '', Y_LABELS, '' @ [dquote] @ ''s-'' @ [dquote] @ '', '' @ [dquote] @ ''F-'' @ [dquote] @ '' ''"
  let ?Z = "'' LOG_Z_MSG, sizeof(log_Z), '' @ [dquote] @ ''Z'' @ [dquote] @ '', '' @ [dquote] @ ''Qf'' @ [dquote] @ '', '' @ [dquote] @ ''TimeUS,C'' @ [dquote] @ '', '' @ [dquote] @ ''s-'' @ [dquote] @ '', '' @ [dquote] @ ''F-'' @ [dquote] @ '' ''"
  let ?bad = "'' LOG_W_MSG, sizeof(log_W), W_NAME, '' @ [dquote] @ ''Qf'' @ [dquote] @ '', Y_LABELS, '' @ [dquote] @ ''s-'' @ [dquote] @ '', '' @ [dquote] @ ''F-'' @ [dquote] @ '' ''"
  let ?badt = "'' LOG_W_MSG, sizeof(log_W), W_NAME, '' @ [dquote] @ ''Qf'' @ [dquote] @ '', '' @ [dquote] @ ''TimeUS,B'' @ [dquote] @ '', '' @ [dquote] @ ''s-'' @ [dquote] @ '', '' @ [dquote] @ ''F-'' @ [dquote] @ '' ''"
  let ?good = "'' AP::logger().Write('' @ [dquote] @ ''TEST'' @ [dquote] @ '', Y_LABELS, '' @ [dquote] @ ''Qf'' @ [dquote] @ '', t, alt); ''"
  let ?badstmt = "'' AP::logger().Write(name, Y_LABELS, '' @ [dquote] @ ''Qf'' @ [dquote] @ '', t, alt); ''"
  let ?badstmtt = "'' AP::logger().Write(name, '' @ [dquote] @ ''TimeUS,B'' @ [dquote] @ '', '' @ [dquote] @ ''Qf'' @ [dquote] @ '', t, alt); ''"
  let ?src = "\<lparr>structure_files = [[''#define Y_LABELS '' @ [dquote] @ ''TimeUS,B'' @ [dquote, CHR 0x0A]]], vehicle_log_cpp = [], cpp_files = [[''    AP::logger().Write(name, Y_LABELS, '' @ [dquote] @ ''Qf'' @ [dquote] @ '','' @ [CHR 0x0A],
       ''        t, alt);'' @ [CHR 0x0A]]]\<rparr>"
  let ?cs = "\<lparr>c_state = STATE_OUTSIDE, log_write_statement = ''    AP::logger().Write(name, Y_LABELS, '' @ [dquote] @ ''Qf'' @ [dquote] @ '','' @ [CHR 0x0A] @ ''        t, alt);'' @ [CHR 0x0A], log_write_statements = [''    AP::logger().Write(name, Y_LABELS, '' @ [dquote] @ ''Qf'' @ [dquote] @ '','' @ [CHR 0x0A] @ ''        t, alt);'' @ [CHR 0x0A]]\<rparr>"
  have h0: "find_format_defines ?lines [] = Inr ?defs"
    by code_simp
  have h1: "substitute_defines ?defs ?bad = Inr ?badt" "re_match pat_struct ?badt = None"
    by code_simp+
  have h2: "?badstmt \<in> set [?good, ?badstmt]" by simp
  have h3: "substitute_defines ?defs ?badstmt = Inr ?badstmtt"
           "re_match pat_call_logger ?badstmtt = None"
           "re_match pat_call_ap_logger ?badstmtt = None"
    by code_simp+
  have h4: "find_format_defines (concat (structure_files ?src)) [] = Inr ?defs"
    by code_simp
  have h5: "scan_call_files \<lparr>c_state = STATE_OUTSIDE, log_write_statement = [], log_write_statements = []\<rparr> (cpp_files ?src) = Inr ?cs"
    by code_simp
  have h6: "map (re_sub pat_whitespace '' '') (log_write_statements ?cs) = [?badstmt]"
    by code_simp
  have h7: "?badstmt \<in> set (map (re_sub pat_whitespace '' '') (log_write_statements ?cs))"
    unfolding h6 by simp
  have h8: "call_results ?defs [?good, ?badstmt] [] = Inl (DidNotMatch ?badstmtt)"
    by code_simp
  from unmatched_entry_by_provenance
         [where lines = ?lines and defs = ?defs and info = ?bad and itext = ?badt
            and before = "[?Y]" and rest = "[?Z]" and ids = "[]"
            and stmt = ?badstmt and stmts = "[?good, ?badstmt]" and stext = ?badstmtt
            and results = "[]"
            and src = ?src and defs' = ?defs and cs = ?cs and stmt' = ?badstmt
            and stext' = ?badstmtt]
       h0 h1 h2 h3 h4 h5 h7
  have "struct_records ?defs ([?Y] @ ?bad # [?Z]) [] = struct_records ?defs ([?Y] @ [?Z]) []"
    and "\<exists>e. all_log_format_ids ?src = Inl e"
    by blast+
  with h1 h8 show ?thesis by blast
qed




text \<open>
  Claim C8, evaluated. In a declaration file, adjacent string literals are joined on a
  continuation line only (line 144): an entry whose middle line holds the labels as
  \<^verbatim>\<open>"TimeUS," "A"\<close> gives the record of \<^verbatim>\<open>X\<close> with the labels \<^verbatim>\<open>TimeUS,A\<close> when it is written on
  three lines, while the same content on one line is captured as it stands (lines 119-121),
  fails the record shape and is dropped, so that the run ends with no record at all. In the
  vehicle file the opening line of an entry is captured with its continuation marker
  (lines 197-200, the marker is removed on the following lines only, line 209): the entry
  \<^verbatim>\<open>Y\<close> on three lines is dropped, and on one line it gives its record.
\<close>

theorem three_line_entry_differs_from_one_line:
  "all_log_format_ids
     \<lparr>structure_files = [[''#define LOG_COMMON_STRUCTURES '' @ [backslash, CHR 0x0A],
          ''    { LOG_X_MSG, sizeof(log_X), '' @ [backslash, CHR 0x0A],
          ''      '' @ [dquote] @ ''X'' @ [dquote] @ '', '' @ [dquote] @ ''Qf'' @ [dquote] @ '', '' @ [dquote] @ ''TimeUS,'' @ [dquote] @ '' '' @ [dquote] @ ''A'' @ [dquote] @ '', '' @ [backslash, CHR 0x0A],
          ''      '' @ [dquote] @ ''s-'' @ [dquote] @ '', '' @ [dquote] @ ''F-'' @ [dquote] @ '' }, '' @ [backslash, CHR 0x0A]]],
        vehicle_log_cpp = [''const struct LogStructure Copter::log_structure[] = {'' @ [CHR 0x0A],
          ''    LOG_COMMON_STRUCTURES,'' @ [CHR 0x0A],
          ''};'' @ [CHR 0x0A]],
        cpp_files = []\<rparr> =
     Inr [(''X'', \<lparr>m_name = ''X'', m_format = Some ''Qf'', m_labels = ''TimeUS,A'', m_units = Some ''s-'', m_multipliers = Some ''F-''\<rparr>)] \<and>
   all_log_format_ids
     \<lparr>structure_files = [[''#define LOG_COMMON_STRUCTURES '' @ [backslash, CHR 0x0A],
          ''    { LOG_X_MSG, sizeof(log_X),       '' @ [dquote] @ ''X'' @ [dquote] @ '', '' @ [dquote] @ ''Qf'' @ [dquote] @ '', '' @ [dquote] @ ''TimeUS,'' @ [dquote] @ '' '' @ [dquote] @ ''A'' @ [dquote] @ '',      '' @ [dquote] @ ''s-'' @ [dquote] @ '', '' @ [dquote] @ ''F-'' @ [dquote] @ '' }, '' @ [backslash, CHR 0x0A]]],
        vehicle_log_cpp = [''const struct LogStructure Copter::log_structure[] = {'' @ [CHR 0x0A],
          ''    LOG_COMMON_STRUCTURES,'' @ [CHR 0x0A],
          ''};'' @ [CHR 0x0A]],
        cpp_files = []\<rparr> =
     Inl DidNotGetAnyIds \<and>
   all_log_format_ids
     \<lparr>structure_files = [],
        vehicle_log_cpp = [''const struct LogStructure Copter::log_structure[] = {'' @ [CHR 0x0A],
          ''    { LOG_Y_MSG, sizeof(log_Y), '' @ [backslash, CHR 0x0A],
          ''      '' @ [dquote] @ ''Y'' @ [dquote] @ '', '' @ [dquote] @ ''Qf'' @ [dquote] @ '', '' @ [dquote] @ ''TimeUS,B'' @ [dquote] @ '', '' @ [backslash, CHR 0x0A],
          ''      '' @ [dquote] @ ''s-'' @ [dquote] @ '', '' @ [dquote] @ ''F-'' @ [dquote] @ '' },'' @ [CHR 0x0A],
          ''};'' @ [CHR 0x0A]],
        cpp_files = []\<rparr> =
     Inl DidNotGetAnyIds \<and>
   all_log_format_ids
     \<lparr>structure_files = [],
        vehicle_log_cpp = [''const struct LogStructure Copter::log_structure[] = {'' @ [CHR 0x0A],
          ''    { LOG_Y_MSG, sizeof(log_Y),       '' @ [dquote] @ ''Y'' @ [dquote] @ '', '' @ [dquote] @ ''Qf'' @ [dquote] @ '', '' @ [dquote] @ ''TimeUS,B'' @ [dquote] @ '',      '' @ [dquote] @ ''s-'' @ [dquote] @ '', '' @ [dquote] @ ''F-'' @ [dquote] @ '' },'' @ [CHR 0x0A],
          ''};'' @ [CHR 0x0A]],
        cpp_files = []\<rparr> =
     Inr [(''Y'', \<lparr>m_name = ''Y'', m_format = Some ''Qf'', m_labels = ''TimeUS,B'', m_units = Some ''s-'', m_multipliers = Some ''F-''\<rparr>)]"
  by code_simp


end
